theory Spec2Isabelle
  imports Main
begin

section \<open>Instants and time spans\<close>

text \<open>
  A Python \<open>datetime\<close> is modelled as the instant it names, counted in microseconds
  since the epoch; a \<open>timedelta\<close> is a number of microseconds. Every datetime is taken
  to carry the zone UTC, so \<open>astimezone(timezone.utc)\<close> is the identity. A datetime
  lies between \<open>datetime_min\<close> (0001-01-01 00:00:00) and \<open>datetime_max\<close>
  (9999-12-31 23:59:59.999999); adding a \<open>timedelta\<close> raises \<open>OverflowError\<close> when
  the sum leaves that range. The storage keeps a duration as \<open>total_seconds()\<close>; the
  model keeps the duration itself.
\<close>

type_synonym datetime = int
type_synonym timedelta = int

datatype error =
    ValueError
  | KeyError
  | TypeError
  | IntegrityError
  | OverflowError
  | BucketModel_DoesNotExist
  | EventModel_DoesNotExist

definition microsecond :: "datetime \<Rightarrow> int" where
  "microsecond dt = dt mod 1000000"

text \<open>\<open>dt.replace(microsecond=m)\<close>: raises \<open>ValueError\<close> unless \<open>m\<close> is in \<open>0..999999\<close>.\<close>

definition replace_microsecond :: "datetime \<Rightarrow> int \<Rightarrow> error + datetime" where
  "replace_microsecond dt m =
     (if 0 \<le> m \<and> m \<le> 999999 then Inr (dt - microsecond dt + m) else Inl ValueError)"

definition timedelta_seconds :: "int \<Rightarrow> timedelta" where
  "timedelta_seconds s = s * 1000000"

definition timedelta_hours :: "int \<Rightarrow> timedelta" where
  "timedelta_hours h = h * 3600000000"

definition datetime_min :: datetime where
  "datetime_min = - 62135596800000000"

definition datetime_max :: datetime where
  "datetime_max = 253402300799999999"

text \<open>\<open>dt + td\<close> and, with a negated \<open>td\<close>, \<open>dt - td\<close>.\<close>

definition datetime_add :: "datetime \<Rightarrow> timedelta \<Rightarrow> error + datetime" where
  "datetime_add dt td =
     (if datetime_min \<le> dt + td \<and> dt + td \<le> datetime_max then Inr (dt + td)
      else Inl OverflowError)"

section \<open>Datetimes as the database compares them\<close>

text \<open>
  SQLite holds a datetime as text and compares two texts byte by byte. A datetime that
  Python hands over (a stored timestamp, a query parameter) is written by
  \<open>isoformat(" ")\<close>: \<open>YYYY-MM-DD HH:MM:SS\<close>, then \<open>.ffffff\<close> unless the microsecond
  field is 0, then \<open>+00:00\<close>. The end of an event is written by SQLite's \<open>strftime\<close>
  with \<open>%f\<close>: the same first 19 characters, then always \<open>.SSS\<close> (milliseconds), then
  \<open>+00:00\<close>. The first 19 characters are fixed-width, zero-padded fields, so they are
  ordered as the whole seconds they name; a text is modelled as that whole second and
  the characters that follow.
\<close>

text \<open>\<open>digits n k\<close>: the \<open>n\<close> lowest decimal digits of \<open>k\<close>, highest first.\<close>

fun digits :: "nat \<Rightarrow> nat \<Rightarrow> nat list" where
  "digits 0 k = []"
| "digits (Suc n) k = digits n (k div 10) @ [k mod 10]"

definition digit_char :: "nat \<Rightarrow> char" where
  "digit_char d = char_of (48 + d)"

definition isoformat_text :: "datetime \<Rightarrow> int \<times> string" where
  "isoformat_text dt =
     (dt div 1000000,
      (if microsecond dt = 0 then []
       else CHR ''.'' # map digit_char (digits 6 (nat (microsecond dt)))) @ ''+00:00'')"

text \<open>The text \<open>strftime\<close> writes for an instant given in whole milliseconds.\<close>

definition strftime_text :: "int \<Rightarrow> int \<times> string" where
  "strftime_text ms =
     (ms div 1000, CHR ''.'' # map digit_char (digits 3 (nat (ms mod 1000))) @ ''+00:00'')"

text \<open>Byte-wise \<open>\<le>\<close> (\<open>memcmp\<close>, the shorter text first when one is a prefix).\<close>

fun memcmp_le :: "string \<Rightarrow> string \<Rightarrow> bool" where
  "memcmp_le [] ys = True"
| "memcmp_le (x # xs) [] = False"
| "memcmp_le (x # xs) (y # ys) =
     ((of_char x :: nat) < of_char y \<or> (x = y \<and> memcmp_le xs ys))"

definition sql_text_le :: "int \<times> string \<Rightarrow> int \<times> string \<Rightarrow> bool" where
  "sql_text_le a b = (fst a < fst b \<or> (fst a = fst b \<and> memcmp_le (snd a) (snd b)))"

section \<open>Data model\<close>

record Event =
  event_id :: "int option"
  timestamp :: datetime
  duration :: timedelta
  data :: string

record BucketModel =
  bm_key :: int
  bm_id :: string
  bm_created :: string
  bm_name :: "string option"
  bm_type :: string
  bm_client :: string
  bm_hostname :: string
  bm_datastr :: "string option"
  bm_user :: "int option"
  bm_hash_key :: string

record EventModel =
  em_id :: "int option"
  em_bucket :: int
  em_timestamp :: datetime
  em_duration :: timedelta
  em_datastr :: string

text \<open>The statements the storage sends to the database, in the order they are executed.\<close>

datatype statement =
    SELECT_BucketModel
  | INSERT_BucketModel
  | SELECT_EventModel
  | INSERT_EventModel
  | UPDATE_EventModel
  | INSERT_MANY_EventModel nat

text \<open>The calls a bucket handle makes on its storage strategy.\<close>

datatype storage_call =
    Call_get_events string int "datetime option" "datetime option"
  | Call_insert_one string Event
  | Call_insert_many string "Event list"
  | Call_replace_last string Event

text \<open>
  The datastore: the two tables (rows in rowid order), the storage's cache
  \<open>bucket_hash_keys\<close>, the statements executed so far, the calls the bucket handles
  have made on the storage, and the events for which the bucket's logger has issued the
  future-event warning.

  \<open>unixepoch_ms\<close> is the arithmetic of the database engine. For the timestamp and the
  duration of a row, SQLite evaluates
  \<open>(julianday(timestamp) - 2440587.5) * 86400.0 + duration\<close> in floating point and,
  under \<open>'unixepoch'\<close>, turns the result into an instant in whole milliseconds (NULL
  outside its range of dates). That computation is not modelled: the datastore carries
  its result, the milliseconds since the epoch, or \<open>None\<close> for NULL.
\<close>

record datastore =
  buckets :: "BucketModel list"
  events :: "EventModel list"
  bucket_hash_keys :: "string \<rightharpoonup> int"
  executed :: "statement list"
  calls :: "storage_call list"
  warnings :: "Event list"
  unixepoch_ms :: "datetime \<Rightarrow> timedelta \<Rightarrow> int option"

section \<open>Bucket identity and creation\<close>

fun str_nat :: "nat \<Rightarrow> string" where
  "str_nat n =
     (if n < 10 then [char_of (48 + n)]
      else str_nat (n div 10) @ [char_of (48 + n mod 10)])"

declare str_nat.simps [simp del]

definition str_int :: "int \<Rightarrow> string" where
  "str_int i = (if i < 0 then CHR ''-'' # str_nat (nat (- i)) else str_nat (nat i))"

text \<open>\<open>str(user)\<close> for an optional integer.\<close>

definition str_user :: "int option \<Rightarrow> string" where
  "str_user user = (case user of None \<Rightarrow> ''None'' | Some u \<Rightarrow> str_int u)"

text \<open>
  \<open>hashlib.md5(...).hexdigest()\<close> is a parameter \<open>md5\<close> of the model: the digest
  function is not part of the repository.
\<close>

definition calculate_bucket_hash_key ::
    "(string \<Rightarrow> string) \<Rightarrow> string \<Rightarrow> int option \<Rightarrow> string" where
  "calculate_bucket_hash_key md5 name user = md5 (name @ str_user user)"

text \<open>
  \<open>{bucket.hash_key: bucket.key for bucket in buckets}\<close>: a later row wins over an
  earlier one with the same hash key.
\<close>

definition update_bucket_hash_keys :: "datastore \<Rightarrow> datastore" where
  "update_bucket_hash_keys st =
     st\<lparr>bucket_hash_keys := map_of (rev (map (\<lambda>b. (bm_hash_key b, bm_key b)) (buckets st))),
        executed := executed st @ [SELECT_BucketModel]\<rparr>"

text \<open>The integer primary key the database gives a row inserted without one.\<close>

definition next_key :: "BucketModel list \<Rightarrow> int" where
  "next_key rows = fold max (map bm_key rows) 0 + 1"

text \<open>
  \<open>PeeweeStorage.create_bucket\<close>. \<open>BucketModel.id\<close> is declared \<open>unique=True\<close>:
  the INSERT of a row whose \<open>id\<close> is already in the table fails with
  \<open>IntegrityError\<close>, before the cache is refreshed.
\<close>

definition create_bucket ::
    "(string \<Rightarrow> string) \<Rightarrow> string \<Rightarrow> string \<Rightarrow> string \<Rightarrow> string \<Rightarrow> string \<Rightarrow>
     string option \<Rightarrow> string option \<Rightarrow> int option \<Rightarrow> datastore \<Rightarrow> (error + string) \<times> datastore" where
  "create_bucket md5 bucket_id type_id client hostname created name bdata user st =
     (let user_id = user;
          row = \<lparr>bm_key = next_key (buckets st),
                 bm_id = bucket_id,
                 bm_created = created,
                 bm_name = name,
                 bm_type = type_id,
                 bm_client = client,
                 bm_hostname = hostname,
                 bm_datastr = Some (case bdata of None \<Rightarrow> ''{}'' | Some d \<Rightarrow> d),
                 bm_user = user_id,
                 bm_hash_key = calculate_bucket_hash_key md5 bucket_id user_id\<rparr>;
          st1 = st\<lparr>executed := executed st @ [INSERT_BucketModel]\<rparr>
      in if bucket_id \<in> set (map bm_id (buckets st)) then (Inl IntegrityError, st1)
         else (Inr (calculate_bucket_hash_key md5 bucket_id user_id),
               update_bucket_hash_keys (st1\<lparr>buckets := buckets st1 @ [row]\<rparr>)))"

section \<open>Writing events\<close>

definition next_id :: "EventModel list \<Rightarrow> int" where
  "next_id rows = fold max (map (\<lambda>r. case em_id r of None \<Rightarrow> 0 | Some i \<Rightarrow> i) rows) 0 + 1"

definition from_event :: "int \<Rightarrow> Event \<Rightarrow> EventModel" where
  "from_event bucket_key event =
     \<lparr>em_id = event_id event,
      em_bucket = bucket_key,
      em_timestamp = timestamp event,
      em_duration = duration event,
      em_datastr = data event\<rparr>"

text \<open>
  \<open>EventModel.save()\<close> of peewee: an instance without a primary key is INSERTed and
  receives the key the database assigns; an instance that has a primary key is written by
  \<open>UPDATE ... WHERE id = pk\<close> of all its fields, which changes nothing when no row has
  that id.
\<close>

definition save :: "EventModel \<Rightarrow> datastore \<Rightarrow> EventModel \<times> datastore" where
  "save e st =
     (case em_id e of
        None \<Rightarrow>
          (let e' = e\<lparr>em_id := Some (next_id (events st))\<rparr>
           in (e', st\<lparr>events := events st @ [e'],
                      executed := executed st @ [INSERT_EventModel]\<rparr>))
      | Some pk \<Rightarrow>
          (e, st\<lparr>events := map (\<lambda>r. if em_id r = Some pk then e else r) (events st),
                 executed := executed st @ [UPDATE_EventModel]\<rparr>))"

definition insert_one :: "string \<Rightarrow> Event \<Rightarrow> datastore \<Rightarrow> (error + Event) \<times> datastore" where
  "insert_one bucket_hash_key event st =
     (case bucket_hash_keys st bucket_hash_key of
        None \<Rightarrow> (Inl KeyError, st)
      | Some k \<Rightarrow>
          (case save (from_event k event) st of
             (e, st') \<Rightarrow> (Inr (event\<lparr>event_id := em_id e\<rparr>), st')))"

text \<open>
  \<open>chunks(ls, n)\<close> yields \<open>ls[i : i + n]\<close> for \<open>i\<close> in \<open>range(0, len(ls), n)\<close>,
  that is for \<open>i = 0, n, 2n, ...\<close> below \<open>len(ls)\<close>; \<open>range\<close> raises
  \<open>ValueError\<close> for a step of 0.
\<close>

definition chunks :: "'a list \<Rightarrow> nat \<Rightarrow> error + 'a list list" where
  "chunks ls n =
     (if n = 0 then Inl ValueError
      else Inr (map (\<lambda>j. take n (drop (j * n) ls)) [0 ..< (length ls + n - 1) div n]))"

text \<open>The loop \<open>for e in events_updates: self.insert_one(bucket_hash_key, e)\<close>.\<close>

fun insert_updates :: "string \<Rightarrow> Event list \<Rightarrow> datastore \<Rightarrow> (error + unit) \<times> datastore" where
  "insert_updates h [] st = (Inr (), st)"
| "insert_updates h (e # es) st =
     (case insert_one h e st of
        (Inl err, st') \<Rightarrow> (Inl err, st')
      | (Inr _, st') \<Rightarrow> insert_updates h es st')"

text \<open>\<open>EventModel.insert_many(chunk).execute()\<close>: one statement, a fresh id per row.\<close>

definition insert_row :: "EventModel \<Rightarrow> EventModel list \<Rightarrow> EventModel list" where
  "insert_row r rows = rows @ [r\<lparr>em_id := Some (next_id rows)\<rparr>]"

definition insert_many_execute :: "EventModel list \<Rightarrow> datastore \<Rightarrow> datastore" where
  "insert_many_execute chunk st =
     st\<lparr>events := foldl (\<lambda>rows r. insert_row r rows) (events st) chunk,
        executed := executed st @ [INSERT_MANY_EventModel (length chunk)]\<rparr>"

definition insert_many :: "string \<Rightarrow> Event list \<Rightarrow> datastore \<Rightarrow> (error + unit) \<times> datastore" where
  "insert_many bucket_hash_key evs st =
     (let events_updates = filter (\<lambda>e. event_id e \<noteq> None) evs
      in case insert_updates bucket_hash_key events_updates st of
           (Inl err, st1) \<Rightarrow> (Inl err, st1)
         | (Inr _, st1) \<Rightarrow>
             (let fresh = filter (\<lambda>e. event_id e = None) evs
              in case bucket_hash_keys st1 bucket_hash_key of
                   None \<Rightarrow> (if fresh = [] then (Inr (), st1) else (Inl KeyError, st1))
                 | Some k \<Rightarrow>
                     (let events_dictlist =
                            map (\<lambda>event. \<lparr>em_id = None,
                                         em_bucket = k,
                                         em_timestamp = timestamp event,
                                         em_duration = duration event,
                                         em_datastr = data event\<rparr>) fresh
                      in case chunks events_dictlist 100 of
                           Inl err \<Rightarrow> (Inl err, st1)
                         | Inr cs \<Rightarrow> (Inr (), foldl (\<lambda>s c. insert_many_execute c s) st1 cs))))"

section \<open>Reading events\<close>

text \<open>\<open>Event(**EventModel.json(row))\<close>.\<close>

definition EventModel_json :: "EventModel \<Rightarrow> Event" where
  "EventModel_json r =
     \<lparr>event_id = em_id r,
      timestamp = em_timestamp r,
      duration = em_duration r,
      data = em_datastr r\<rparr>"

text \<open>
  \<open>ORDER BY timestamp DESC\<close>. The stored timestamps are texts written by
  \<open>isoformat\<close>, and these are ordered as the instants they name (lemma
  \<open>isoformat_text_le\<close> below). SQL leaves the order of rows with equal timestamps
  open; here they keep the order of the table.
\<close>

definition order_by_timestamp_desc :: "EventModel list \<Rightarrow> EventModel list" where
  "order_by_timestamp_desc rows = sort_key (\<lambda>r. - em_timestamp r) rows"

text \<open>\<open>LIMIT n\<close> of SQLite: a negative \<open>n\<close> is no limit.\<close>

definition limit_rows :: "int \<Rightarrow> 'a list \<Rightarrow> 'a list" where
  "limit_rows n rows = (if n < 0 then rows else take (nat n) rows)"

definition get_event :: "string \<Rightarrow> int \<Rightarrow> datastore \<Rightarrow> (error + Event option) \<times> datastore" where
  "get_event bucket_hash_key eid st =
     (case bucket_hash_keys st bucket_hash_key of
        None \<Rightarrow> (Inl KeyError, st)
      | Some k \<Rightarrow>
          (Inr (map_option EventModel_json
                  (find (\<lambda>r. em_id r = Some eid \<and> em_bucket r = k) (events st))),
           st\<lparr>executed := executed st @ [SELECT_EventModel]\<rparr>))"

text \<open>
  \<open>_get_last\<close>: the first row of the bucket's events ordered by timestamp
  descending; \<open>.get()\<close> raises \<open>EventModel.DoesNotExist\<close> when there is none.
\<close>

definition get_last :: "string \<Rightarrow> datastore \<Rightarrow> (error + EventModel) \<times> datastore" where
  "get_last bucket_hash_key st =
     (case bucket_hash_keys st bucket_hash_key of
        None \<Rightarrow> (Inl KeyError, st)
      | Some k \<Rightarrow>
          (let st1 = st\<lparr>executed := executed st @ [SELECT_EventModel]\<rparr>
           in case order_by_timestamp_desc (filter (\<lambda>r. em_bucket r = k) (events st)) of
                [] \<Rightarrow> (Inl EventModel_DoesNotExist, st1)
              | r # _ \<Rightarrow> (Inr r, st1)))"

definition replace_last :: "string \<Rightarrow> Event \<Rightarrow> datastore \<Rightarrow> (error + Event) \<times> datastore" where
  "replace_last bucket_hash_key event st =
     (case get_last bucket_hash_key st of
        (Inl err, st1) \<Rightarrow> (Inl err, st1)
      | (Inr e, st1) \<Rightarrow>
          (case save (e\<lparr>em_timestamp := timestamp event,
                        em_duration := duration event,
                        em_datastr := data event\<rparr>) st1 of
             (e', st2) \<Rightarrow> (Inr (event\<lparr>event_id := em_id e'\<rparr>), st2)))"

text \<open>
  \<open>dt_plus_duration\<close>: the text of \<open>strftime("%Y-%m-%d %H:%M:%f+00:00", ..., "unixepoch")\<close>
  for a row, or \<open>None\<close> for NULL.
\<close>

definition dt_plus_duration ::
    "(datetime \<Rightarrow> timedelta \<Rightarrow> int option) \<Rightarrow> datetime \<Rightarrow> timedelta \<Rightarrow> (int \<times> string) option" where
  "dt_plus_duration db dt dur = map_option strftime_text (db dt dur)"

text \<open>
  The conditions \<open>_where_range\<close> adds to a query of event rows. The lower bound
  \<open>starttime - timedelta(hours=24)\<close> is computed when the query is built and raises
  \<open>OverflowError\<close> below \<open>datetime_min\<close>. A comparison with NULL is not true.
\<close>

definition where_range ::
    "(datetime \<Rightarrow> timedelta \<Rightarrow> int option) \<Rightarrow> datetime option \<Rightarrow> datetime option \<Rightarrow>
     error + (EventModel \<Rightarrow> bool)" where
  "where_range db starttime endtime =
     (let until = (\<lambda>r. case endtime of
                          None \<Rightarrow> True
                        | Some e \<Rightarrow> sql_text_le (isoformat_text (em_timestamp r)) (isoformat_text e))
      in case starttime of
           None \<Rightarrow> Inr until
         | Some s \<Rightarrow>
             (case datetime_add s (- timedelta_hours 24) of
                Inl err \<Rightarrow> Inl err
              | Inr lower \<Rightarrow>
                  Inr (\<lambda>r. sql_text_le (isoformat_text lower) (isoformat_text (em_timestamp r)) \<and>
                           (case dt_plus_duration db (em_timestamp r) (em_duration r) of
                              None \<Rightarrow> False
                            | Some end_text \<Rightarrow> sql_text_le (isoformat_text s) end_text) \<and>
                           until r)))"

text \<open>
  The query of \<open>get_events\<close> as the database evaluates it: the rows of the bucket that
  pass the conditions of \<open>_where_range\<close>, ordered by timestamp descending, cut at the
  limit.
\<close>

definition select_events ::
    "int \<Rightarrow> int \<Rightarrow> (EventModel \<Rightarrow> bool) \<Rightarrow> EventModel list \<Rightarrow> EventModel list" where
  "select_events bucket_key limit cond rows =
     limit_rows limit
       (order_by_timestamp_desc (filter (\<lambda>r. em_bucket r = bucket_key \<and> cond r) rows))"

text \<open>
  The body of the loop that trims a fetched event to the range; each
  \<open>e.timestamp + e.duration\<close> can raise \<open>OverflowError\<close>.
\<close>

definition trim :: "datetime option \<Rightarrow> datetime option \<Rightarrow> Event \<Rightarrow> error + Event" where
  "trim starttime endtime e =
     (case (case starttime of
              None \<Rightarrow> Inr e
            | Some s \<Rightarrow>
                if timestamp e < s
                then (case datetime_add (timestamp e) (duration e) of
                        Inl err \<Rightarrow> Inl err
                      | Inr e_end \<Rightarrow> Inr (e\<lparr>timestamp := s, duration := e_end - s\<rparr>))
                else Inr e) of
        Inl err \<Rightarrow> Inl err
      | Inr e1 \<Rightarrow>
          (case endtime of
             None \<Rightarrow> Inr e1
           | Some t \<Rightarrow>
               (case datetime_add (timestamp e1) (duration e1) of
                  Inl err \<Rightarrow> Inl err
                | Inr e1_end \<Rightarrow>
                    if e1_end > t then Inr (e1\<lparr>duration := t - timestamp e1\<rparr>) else Inr e1)))"

text \<open>The loop \<open>for e in events\<close>: the first error ends it.\<close>

fun trim_all :: "datetime option \<Rightarrow> datetime option \<Rightarrow> Event list \<Rightarrow> error + Event list" where
  "trim_all starttime endtime [] = Inr []"
| "trim_all starttime endtime (e # es) =
     (case trim starttime endtime e of
        Inl err \<Rightarrow> Inl err
      | Inr e' \<Rightarrow>
          (case trim_all starttime endtime es of
             Inl err \<Rightarrow> Inl err
           | Inr es' \<Rightarrow> Inr (e' # es')))"

definition get_events ::
    "string \<Rightarrow> int \<Rightarrow> datetime option \<Rightarrow> datetime option \<Rightarrow> datastore \<Rightarrow>
     (error + Event list) \<times> datastore" where
  "get_events bucket_hash_key limit starttime endtime st =
     (if limit = 0 then (Inr [], st)
      else
        (let st1 = st\<lparr>executed := executed st @ [SELECT_BucketModel]\<rparr>
         in case find (\<lambda>b. bm_hash_key b = bucket_hash_key) (buckets st) of
              None \<Rightarrow> (Inl BucketModel_DoesNotExist, st1)
            | Some b \<Rightarrow>
                (case where_range (unixepoch_ms st) starttime endtime of
                   Inl err \<Rightarrow> (Inl err, st1)
                 | Inr cond \<Rightarrow>
                     (let bucket_key = bm_key b;
                          res = select_events bucket_key limit cond (events st);
                          evs = map EventModel_json res;
                          st2 = st1\<lparr>executed := executed st1 @ [SELECT_EventModel]\<rparr>
                      in case trim_all starttime endtime evs of
                           Inl err \<Rightarrow> (Inl err, st2)
                         | Inr trimmed \<Rightarrow> (Inr trimmed, st2)))))"

section \<open>The bucket handle\<close>

text \<open>
  The boundaries \<open>Bucket.get\<close> hands to the storage. \<open>int(x / 1000)\<close> on a
  non-negative integer below a million is the integer quotient.
\<close>

definition get_starttime :: "datetime option \<Rightarrow> error + datetime option" where
  "get_starttime starttime =
     (case starttime of
        None \<Rightarrow> Inr None
      | Some s \<Rightarrow>
          (case replace_microsecond s (1000 * (microsecond s div 1000)) of
             Inl err \<Rightarrow> Inl err
           | Inr s' \<Rightarrow> Inr (Some s')))"

definition get_endtime :: "datetime option \<Rightarrow> error + datetime option" where
  "get_endtime endtime =
     (case endtime of
        None \<Rightarrow> Inr None
      | Some e \<Rightarrow>
          (let milliseconds = 1 + microsecond e div 1000;
               second_offset = milliseconds div 1000;
               microseconds = (1000 * milliseconds) mod 1000000
           in case replace_microsecond e microseconds of
                Inl err \<Rightarrow> Inl err
              | Inr e' \<Rightarrow>
                  (case datetime_add e' (timedelta_seconds second_offset) of
                     Inl err \<Rightarrow> Inl err
                   | Inr e'' \<Rightarrow> Inr (Some e''))))"

text \<open>
  \<open>Bucket.get\<close> normalises the boundaries and then always calls the storage's
  \<open>get_events\<close>; it has no test of the limit of its own.
\<close>

definition Bucket_get ::
    "string \<Rightarrow> int \<Rightarrow> datetime option \<Rightarrow> datetime option \<Rightarrow> datastore \<Rightarrow>
     (error + Event list) \<times> datastore" where
  "Bucket_get bucket_hash_key limit starttime endtime st =
     (case get_starttime starttime of
        Inl err \<Rightarrow> (Inl err, st)
      | Inr starttime' \<Rightarrow>
          (case get_endtime endtime of
             Inl err \<Rightarrow> (Inl err, st)
           | Inr endtime' \<Rightarrow>
               get_events bucket_hash_key limit starttime' endtime'
                 (st\<lparr>calls := calls st @
                      [Call_get_events bucket_hash_key limit starttime' endtime']\<rparr>)))"

text \<open>
  The argument of \<open>Bucket.insert\<close>: an \<open>Event\<close>, a list, or any other object.
  \<open>now\<close> is the clock reading \<open>datetime.now(tz=timezone.utc)\<close> taken on entry.
  \<open>warn_older_event\<close> is the constant \<open>False\<close>, so the branches it guards never run
  and \<open>oldest_event\<close> is never read.
\<close>

datatype insert_arg = One Event | Many "Event list" | Other

text \<open>
  The check \<open>event.timestamp + event.duration > now\<close> with its warning, for the events
  in turn; the sum can raise \<open>OverflowError\<close>.
\<close>

fun warn_future :: "datetime \<Rightarrow> Event list \<Rightarrow> datastore \<Rightarrow> (error + unit) \<times> datastore" where
  "warn_future now [] st = (Inr (), st)"
| "warn_future now (event # es) st =
     (case datetime_add (timestamp event) (duration event) of
        Inl err \<Rightarrow> (Inl err, st)
      | Inr event_end \<Rightarrow>
          warn_future now es
            (if event_end > now then st\<lparr>warnings := warnings st @ [event]\<rparr> else st))"

definition Bucket_insert ::
    "string \<Rightarrow> datetime \<Rightarrow> insert_arg \<Rightarrow> datastore \<Rightarrow> (error + Event option) \<times> datastore" where
  "Bucket_insert bucket_hash_key now arg st =
     (case arg of
        One ev \<Rightarrow>
          (case warn_future now [ev] st of
             (Inl err, st1) \<Rightarrow> (Inl err, st1)
           | (Inr _, st1) \<Rightarrow>
               (case insert_one bucket_hash_key ev
                       (st1\<lparr>calls := calls st1 @ [Call_insert_one bucket_hash_key ev]\<rparr>) of
                  (Inl err, st2) \<Rightarrow> (Inl err, st2)
                | (Inr inserted, st2) \<Rightarrow> (Inr (Some inserted), st2)))
      | Many evs \<Rightarrow>
          (case warn_future now evs st of
             (Inl err, st1) \<Rightarrow> (Inl err, st1)
           | (Inr _, st1) \<Rightarrow>
               (case insert_many bucket_hash_key evs
                       (st1\<lparr>calls := calls st1 @ [Call_insert_many bucket_hash_key evs]\<rparr>) of
                  (Inl err, st2) \<Rightarrow> (Inl err, st2)
                | (Inr _, st2) \<Rightarrow> (Inr None, st2)))
      | Other \<Rightarrow> (Inl TypeError, st))"

definition Bucket_replace_last :: "string \<Rightarrow> Event \<Rightarrow> datastore \<Rightarrow> (error + Event) \<times> datastore" where
  "Bucket_replace_last bucket_hash_key event st =
     replace_last bucket_hash_key event
       (st\<lparr>calls := calls st @ [Call_replace_last bucket_hash_key event]\<rparr>)"

section \<open>Example stores\<close>

text \<open>
  The database arithmetic of the examples: the end of the row rounded to the nearest
  millisecond, which is what SQLite reaches when the error of its floating-point sum is
  well under half a millisecond, as for the rows below (all on whole milliseconds).
\<close>

definition round_to_ms :: "datetime \<Rightarrow> timedelta \<Rightarrow> int option" where
  "round_to_ms dt dur = Some ((dt + dur + 500) div 1000)"

definition example_bucket :: BucketModel where
  "example_bucket =
     \<lparr>bm_key = 1, bm_id = ''b'', bm_created = ''2024-01-01T00:00:00+00:00'', bm_name = None,
      bm_type = ''t'', bm_client = ''c'', bm_hostname = ''host'', bm_datastr = Some ''{}'',
      bm_user = Some 1, bm_hash_key = ''h''\<rparr>"

text \<open>One bucket with hash key \<open>h\<close> and no events.\<close>

definition empty_bucket_store :: datastore where
  "empty_bucket_store =
     \<lparr>buckets = [example_bucket], events = [], bucket_hash_keys = [''h'' \<mapsto> 1],
      executed = [], calls = [], warnings = [], unixepoch_ms = round_to_ms\<rparr>"

text \<open>
  The two events of the specification's range example, on the first of January 1970:
  \<open>[10:00:00, 10:00:05)\<close> and \<open>[10:00:04, 10:00:06)\<close>.
\<close>

definition first_row :: EventModel where
  "first_row = \<lparr>em_id = Some 1, em_bucket = 1, em_timestamp = 36000000000,
                 em_duration = 5000000, em_datastr = ''{}''\<rparr>"

definition second_row :: EventModel where
  "second_row = \<lparr>em_id = Some 2, em_bucket = 1, em_timestamp = 36004000000,
                  em_duration = 2000000, em_datastr = ''{}''\<rparr>"

definition two_event_store :: datastore where
  "two_event_store = empty_bucket_store\<lparr>events := [first_row, second_row]\<rparr>"

text \<open>An event of 26 hours that starts at the epoch.\<close>

definition long_row :: EventModel where
  "long_row = \<lparr>em_id = Some 1, em_bucket = 1, em_timestamp = 0,
                em_duration = 93600000000, em_datastr = ''{}''\<rparr>"

definition long_event_store :: datastore where
  "long_event_store = empty_bucket_store\<lparr>events := [long_row]\<rparr>"

text \<open>An event that is new (no id yet) and one that carries an id no stored row has.\<close>

definition new_event :: Event where
  "new_event = \<lparr>event_id = None, timestamp = 36010000000, duration = 1000000, data = ''new''\<rparr>"

definition stale_event :: Event where
  "stale_event = \<lparr>event_id = Some 5, timestamp = 36010000000, duration = 1000000, data = ''new''\<rparr>"

text \<open>
  A row that ends at 10:00:05.123400, inside the millisecond in which a range can start,
  and a row that ends at 10:00:04.999600, less than half a millisecond before a whole
  second.
\<close>

definition millisecond_row :: EventModel where
  "millisecond_row = \<lparr>em_id = Some 1, em_bucket = 1, em_timestamp = 36005000000,
                       em_duration = 123400, em_datastr = ''{}''\<rparr>"

definition near_second_row :: EventModel where
  "near_second_row = \<lparr>em_id = Some 1, em_bucket = 1, em_timestamp = 36004000000,
                       em_duration = 999600, em_datastr = ''{}''\<rparr>"

section \<open>Comparison of datetime texts\<close>

lemma of_char_digit: "d < 10 \<Longrightarrow> (of_char (digit_char d) :: nat) = 48 + d"
  by (simp add: digit_char_def)

lemma digit_char_eq: "a < 10 \<Longrightarrow> b < 10 \<Longrightarrow> digit_char a = digit_char b \<longleftrightarrow> a = b"
proof
  assume "a < 10" "b < 10" "digit_char a = digit_char b"
  then have "(of_char (digit_char a) :: nat) = of_char (digit_char b)" by simp
  with \<open>a < 10\<close> \<open>b < 10\<close> show "a = b" by (simp add: of_char_digit)
qed simp

lemma memcmp_le_refl: "memcmp_le xs xs"
  by (induction xs) simp_all

lemma nat_by_digit:
  "((k::nat) < j \<longleftrightarrow> k div 10 < j div 10 \<or> (k div 10 = j div 10 \<and> k mod 10 < j mod 10)) \<and>
   (k = j \<longleftrightarrow> k div 10 = j div 10 \<and> k mod 10 = j mod 10)"
proof -
  define q r q' r' where "q = k div 10" and "r = k mod 10" and "q' = j div 10" and "r' = j mod 10"
  have k: "k = 10 * q + r" and j: "j = 10 * q' + r'"
    by (simp_all add: q_def r_def q'_def r'_def)
  have b: "r < 10" "r' < 10" by (simp_all add: r_def r'_def)
  consider "q < q'" | "q = q'" | "q' < q" by linarith
  then have "(k < j \<longleftrightarrow> q < q' \<or> (q = q' \<and> r < r')) \<and> (k = j \<longleftrightarrow> q = q' \<and> r = r')"
  proof cases
    case 1
    with k j b show ?thesis by linarith
  next
    case 2
    with k j b show ?thesis by simp
  next
    case 3
    with k j b show ?thesis by linarith
  qed
  then show ?thesis by (simp add: q_def r_def q'_def r'_def)
qed

lemma nat_less_by_digit:
  "(k::nat) < j \<longleftrightarrow> k div 10 < j div 10 \<or> (k div 10 = j div 10 \<and> k mod 10 < j mod 10)"
  using nat_by_digit [of k j] by blast

lemma nat_eq_by_digit:
  "(k::nat) = j \<longleftrightarrow> k div 10 = j div 10 \<and> k mod 10 = j mod 10"
  using nat_by_digit [of k j] by blast

text \<open>Fixed-width decimal fields are ordered byte-wise as the numbers they write.\<close>

lemma memcmp_le_digits:
  "memcmp_le (map digit_char (digits n k) @ t1) (map digit_char (digits n j) @ t2) \<longleftrightarrow>
     k mod 10 ^ n < j mod 10 ^ n \<or> (k mod 10 ^ n = j mod 10 ^ n \<and> memcmp_le t1 t2)"
proof (induction n arbitrary: k j t1 t2)
  case 0
  then show ?case by simp
next
  case (Suc n)
  define a where "a = k mod 10"
  define b where "b = j mod 10"
  have ab: "a < 10" "b < 10" by (simp_all add: a_def b_def)
  have step: "memcmp_le (digit_char a # t1) (digit_char b # t2) \<longleftrightarrow>
      a < b \<or> (a = b \<and> memcmp_le t1 t2)"
    using ab by (simp add: of_char_digit digit_char_eq)
  have km: "k mod 10 ^ Suc n div 10 = k div 10 mod 10 ^ n" "k mod 10 ^ Suc n mod 10 = a"
    by (simp_all add: a_def mod_mult2_eq)
  have jm: "j mod 10 ^ Suc n div 10 = j div 10 mod 10 ^ n" "j mod 10 ^ Suc n mod 10 = b"
    by (simp_all add: b_def mod_mult2_eq)
  have "memcmp_le (map digit_char (digits (Suc n) k) @ t1)
          (map digit_char (digits (Suc n) j) @ t2) \<longleftrightarrow>
        memcmp_le (map digit_char (digits n (k div 10)) @ (digit_char a # t1))
          (map digit_char (digits n (j div 10)) @ (digit_char b # t2))"
    by (simp add: a_def b_def)
  also have "\<dots> \<longleftrightarrow> k div 10 mod 10 ^ n < j div 10 mod 10 ^ n \<or>
      (k div 10 mod 10 ^ n = j div 10 mod 10 ^ n \<and> (a < b \<or> (a = b \<and> memcmp_le t1 t2)))"
    unfolding Suc.IH step ..
  also have "\<dots> \<longleftrightarrow> k mod 10 ^ Suc n < j mod 10 ^ Suc n \<or>
      (k mod 10 ^ Suc n = j mod 10 ^ Suc n \<and> memcmp_le t1 t2)"
    using nat_less_by_digit [of "k mod 10 ^ Suc n" "j mod 10 ^ Suc n"]
      nat_eq_by_digit [of "k mod 10 ^ Suc n" "j mod 10 ^ Suc n"]
    unfolding km jm by blast
  finally show ?case .
qed

lemma digits_split: "digits (n + m) k = digits n (k div 10 ^ m) @ digits m k"
proof (induction m arbitrary: k)
  case 0
  then show ?case by simp
next
  case (Suc m)
  have "k div 10 div 10 ^ m = k div 10 ^ Suc m"
    by (simp add: div_mult2_eq)
  with Suc [of "k div 10"] show ?case by simp
qed

lemma digits_3: "digits 3 k = [k div 10 div 10 mod 10, k div 10 mod 10, k mod 10]"
  by (simp add: numeral_3_eq_3)

lemma plus_before_point: "memcmp_le (''+00:00'') (CHR ''.'' # t)"
  by simp

lemma point_after_plus: "\<not> memcmp_le (CHR ''.'' # t) (''+00:00'')"
  by simp

lemma digit_after_plus:
  assumes "d < 10"
  shows "\<not> memcmp_le (digit_char d # t) (''+00:00'')"
proof -
  have "digit_char d \<noteq> CHR ''+''"
  proof
    assume "digit_char d = CHR ''+''"
    then have "(of_char (digit_char d) :: nat) = of_char CHR ''+''" by simp
    with assms show False by (simp add: of_char_digit)
  qed
  with assms show ?thesis by (simp add: of_char_digit)
qed

lemma int_le_by_second:
  "(a::int) \<le> b \<longleftrightarrow>
     a div 1000000 < b div 1000000 \<or>
     (a div 1000000 = b div 1000000 \<and> a mod 1000000 \<le> b mod 1000000)"
proof -
  define qa ra qb rb where "qa = a div 1000000" and "ra = a mod 1000000"
    and "qb = b div 1000000" and "rb = b mod 1000000"
  have a: "a = 1000000 * qa + ra" and b: "b = 1000000 * qb + rb"
    by (simp_all add: qa_def ra_def qb_def rb_def)
  have r: "0 \<le> ra" "ra < 1000000" "0 \<le> rb" "rb < 1000000"
    by (simp_all add: ra_def rb_def)
  consider "qa < qb" | "qa = qb" | "qb < qa" by linarith
  then have "a \<le> b \<longleftrightarrow> qa < qb \<or> (qa = qb \<and> ra \<le> rb)"
  proof cases
    case 1
    with a b r show ?thesis by linarith
  next
    case 2
    with a b r show ?thesis by simp
  next
    case 3
    with a b r show ?thesis by linarith
  qed
  then show ?thesis by (simp add: qa_def ra_def qb_def rb_def)
qed

text \<open>Two texts written by Python are ordered as the instants.\<close>

lemma isoformat_text_le:
  "sql_text_le (isoformat_text a) (isoformat_text b) \<longleftrightarrow> a \<le> b"
proof -
  define ma mb where "ma = a mod 1000000" and "mb = b mod 1000000"
  have rng: "0 \<le> ma" "ma < 1000000" "0 \<le> mb" "mb < 1000000"
    by (simp_all add: ma_def mb_def)
  have tails: "memcmp_le (snd (isoformat_text a)) (snd (isoformat_text b)) \<longleftrightarrow> ma \<le> mb"
  proof (cases "ma = 0")
    case True
    then show ?thesis
      using rng by (cases "mb = 0") (simp_all add: isoformat_text_def microsecond_def ma_def mb_def)
  next
    case False
    note a_nz = this
    show ?thesis
    proof (cases "mb = 0")
      case True
      with a_nz rng show ?thesis
        by (simp add: isoformat_text_def microsecond_def ma_def mb_def)
    next
      case False
      have "nat ma mod 10 ^ 6 = nat ma" "nat mb mod 10 ^ 6 = nat mb"
        using rng by simp_all
      with memcmp_le_digits [of 6 "nat ma" "''+00:00''" "nat mb" "''+00:00''"]
      have "memcmp_le (map digit_char (digits 6 (nat ma)) @ ''+00:00'')
              (map digit_char (digits 6 (nat mb)) @ ''+00:00'') \<longleftrightarrow> nat ma \<le> nat mb"
        using memcmp_le_refl [of "''+00:00''"] by auto
      moreover have "nat ma \<le> nat mb \<longleftrightarrow> ma \<le> mb"
        using rng by linarith
      ultimately have "memcmp_le (map digit_char (digits 6 (nat ma)) @ ''+00:00'')
              (map digit_char (digits 6 (nat mb)) @ ''+00:00'') \<longleftrightarrow> ma \<le> mb"
        by simp
      with a_nz False show ?thesis
        by (simp add: isoformat_text_def microsecond_def ma_def [symmetric] mb_def [symmetric])
    qed
  qed
  show ?thesis
    unfolding sql_text_le_def tails
    using int_le_by_second [of a b]
    by (simp add: isoformat_text_def ma_def mb_def)
qed

text \<open>
  A text written by Python against a text written by \<open>strftime\<close>: within the same
  second, a parameter without fraction comes first, and a parameter with its six digits
  comes first only when its milliseconds are strictly less.
\<close>

lemma isoformat_strftime_le:
  "sql_text_le (isoformat_text s) (strftime_text ms) \<longleftrightarrow>
     s div 1000000 < ms div 1000 \<or>
     (s div 1000000 = ms div 1000 \<and>
        (s mod 1000000 = 0 \<or> s mod 1000000 div 1000 < ms mod 1000))"
proof -
  define us where "us = s mod 1000000"
  define k where "k = ms mod 1000"
  have rng: "0 \<le> us" "us < 1000000" "0 \<le> k" "k < 1000"
    by (simp_all add: us_def k_def)
  have tails: "memcmp_le (snd (isoformat_text s)) (snd (strftime_text ms)) \<longleftrightarrow>
      us = 0 \<or> us div 1000 < k"
  proof (cases "us = 0")
    case True
    then show ?thesis
      by (simp add: isoformat_text_def strftime_text_def microsecond_def us_def)
  next
    case False
    define lo where "lo = map digit_char (digits 3 (nat us)) @ ''+00:00''"
    have six: "digits 6 (nat us) = digits 3 (nat us div 10 ^ 3) @ digits 3 (nat us)"
      using digits_split [of 3 3 "nat us"] by simp
    have lo: "\<not> memcmp_le lo (''+00:00'')"
    proof -
      define d0 where "d0 = nat us div 10 div 10 mod 10"
      define rest where
        "rest = map digit_char [nat us div 10 mod 10, nat us mod 10] @ ''+00:00''"
      have lo_eq: "lo = digit_char d0 # rest"
        by (simp add: lo_def digits_3 d0_def rest_def)
      have "d0 < 10" by (simp add: d0_def)
      then show ?thesis unfolding lo_eq by (rule digit_after_plus)
    qed
    have hi: "nat us div 10 ^ 3 mod 10 ^ 3 = nat (us div 1000)"
    proof -
      have "us div 1000 \<le> 999999 div 1000"
        using rng by (intro zdiv_mono1) simp_all
      then have "nat (us div 1000) < 1000" by simp
      moreover have "nat us div 1000 = nat (us div 1000)"
        using rng by (simp add: nat_div_distrib)
      ultimately show ?thesis by simp
    qed
    have kk: "nat k mod 10 ^ 3 = nat k" using rng by simp
    from memcmp_le_digits [of 3 "nat us div 10 ^ 3" lo "nat k" "''+00:00''"] lo
    have "memcmp_le (map digit_char (digits 3 (nat us div 10 ^ 3)) @ lo)
            (map digit_char (digits 3 (nat k)) @ ''+00:00'') \<longleftrightarrow> nat (us div 1000) < nat k"
      unfolding hi kk by blast
    moreover have "nat (us div 1000) < nat k \<longleftrightarrow> us div 1000 < k"
    proof -
      have "0 \<le> us div 1000" using rng by (simp add: pos_imp_zdiv_nonneg_iff)
      then show ?thesis by linarith
    qed
    ultimately show ?thesis
      using False
      by (simp add: isoformat_text_def strftime_text_def microsecond_def
          us_def [symmetric] k_def [symmetric] six lo_def)
  qed
  show ?thesis
    unfolding sql_text_le_def tails
    by (simp add: isoformat_text_def strftime_text_def us_def k_def)
qed

text \<open>
  Hence a start on a whole millisecond is accepted exactly when the end, in
  milliseconds, is strictly later, or equal and on a whole second.
\<close>

lemma isoformat_strftime_le_ms:
  assumes "s mod 1000 = 0"
  shows "sql_text_le (isoformat_text s) (strftime_text ms) \<longleftrightarrow>
     s div 1000 < ms \<or> (s div 1000 = ms \<and> s mod 1000000 = 0)"
proof -
  define S where "S = s div 1000"
  from assms have s: "s = 1000 * S"
    using mult_div_mod_eq [of 1000 s] by (simp add: S_def)
  have sec: "s div 1000000 = S div 1000"
    unfolding s by (simp add: zdiv_zmult2_eq [symmetric])
  have frac: "s mod 1000000 div 1000 = S mod 1000"
  proof -
    have "s mod 1000000 = 1000 * (S mod 1000)"
      unfolding s using mult_mod_right [of 1000 S 1000] by simp
    then show ?thesis by simp
  qed
  have zero: "s mod 1000000 = 0 \<longleftrightarrow> S mod 1000 = 0"
  proof -
    have "s mod 1000000 = 1000 * (S mod 1000)"
      unfolding s using mult_mod_right [of 1000 S 1000] by simp
    then show ?thesis by simp
  qed
  define q r q' r' where "q = S div 1000" and "r = S mod 1000"
    and "q' = ms div 1000" and "r' = ms mod 1000"
  have S: "S = 1000 * q + r" and M: "ms = 1000 * q' + r'"
    by (simp_all add: q_def r_def q'_def r'_def)
  have b: "0 \<le> r" "r < 1000" "0 \<le> r'" "r' < 1000"
    by (simp_all add: r_def r'_def)
  have "(q < q' \<or> (q = q' \<and> (r = 0 \<or> r < r'))) \<longleftrightarrow> (S < ms \<or> (S = ms \<and> r = 0))"
  proof -
    consider "q < q'" | "q = q'" | "q' < q" by linarith
    then show ?thesis
    proof cases
      case 1
      with S M b show ?thesis by linarith
    next
      case 2
      with S M b show ?thesis by auto
    next
      case 3
      with S M b show ?thesis by linarith
    qed
  qed
  then show ?thesis
    unfolding isoformat_strftime_le sec frac zero
    by (simp add: q_def r_def q'_def r'_def S_def)
qed


section \<open>The boundaries of a range query\<close>

lemma us_split: "(dt::int) mod 1000000 = 1000 * (dt mod 1000000 div 1000) + dt mod 1000"
proof -
  have "(dt mod 1000000) mod 1000 = dt mod 1000"
    by (rule mod_mod_cancel) simp
  then show ?thesis
    using mult_div_mod_eq [of 1000 "dt mod 1000000"] by simp
qed

lemma ms_bounds: "0 \<le> (dt::int) mod 1000000 div 1000 \<and> dt mod 1000000 div 1000 \<le> 999"
proof -
  have lo: "0 \<le> dt mod 1000000" by simp
  have "dt mod 1000000 < 1000000" by simp
  then have hi: "dt mod 1000000 \<le> 999999" by simp
  have "dt mod 1000000 div 1000 \<le> 999999 div 1000"
    using hi by (rule zdiv_mono1) simp
  moreover have "0 \<le> dt mod 1000000 div 1000"
    using lo by (simp add: pos_imp_zdiv_nonneg_iff)
  ultimately show ?thesis by simp
qed

lemma get_starttime_Some: "get_starttime (Some s) = Inr (Some (s - s mod 1000))"
  using us_split [of s] ms_bounds [of s]
  by (simp add: get_starttime_def replace_microsecond_def microsecond_def)

lemma get_starttime_total: "\<exists>s'. get_starttime starttime = Inr s'"
proof (cases starttime)
  case None
  then show ?thesis by (simp add: get_starttime_def)
next
  case (Some s)
  then show ?thesis by (simp add: get_starttime_Some)
qed

text \<open>
  The end \<open>Bucket.get\<close> computes: the next millisecond boundary, or \<open>OverflowError\<close>
  when that boundary is no datetime.
\<close>

lemma get_endtime_eq:
  "get_endtime (Some e) =
     (if datetime_min \<le> e - e mod 1000 + 1000 \<and> e - e mod 1000 + 1000 \<le> datetime_max
      then Inr (Some (e - e mod 1000 + 1000)) else Inl OverflowError)"
proof -
  define d where "d = e mod 1000000 div 1000"
  define us' where "us' = (1000 * (1 + d)) mod 1000000"
  define off where "off = ((1 + d) div 1000) * 1000000"
  have d: "0 \<le> d" "d \<le> 999" using ms_bounds [of e] by (simp_all add: d_def)
  have us'_rng: "0 \<le> us'" "us' \<le> 999999"
  proof -
    have "0 \<le> us'" "us' < 1000000" by (simp_all add: us'_def)
    then show "0 \<le> us'" "us' \<le> 999999" by simp_all
  qed
  have sum: "e - e mod 1000000 + us' + off = e - e mod 1000 + 1000"
  proof (cases "d = 999")
    case True
    then have "us' = 0" "off = 1000000" by (simp_all add: us'_def off_def)
    moreover from True us_split [of e] have "e mod 1000000 = 999000 + e mod 1000"
      by (simp add: d_def)
    ultimately show ?thesis by simp
  next
    case False
    with d have lt: "d < 999" by simp
    with d have "us' = 1000 + 1000 * d" "off = 0" by (simp_all add: us'_def off_def)
    moreover from us_split [of e] have "e mod 1000000 = 1000 * d + e mod 1000"
      by (simp add: d_def)
    ultimately show ?thesis by simp
  qed
  have "get_endtime (Some e) =
      (case datetime_add (e - e mod 1000000 + us') off of
         Inl err \<Rightarrow> Inl err | Inr e'' \<Rightarrow> Inr (Some e''))"
    using us'_rng [unfolded us'_def]
    by (simp add: get_endtime_def Let_def replace_microsecond_def microsecond_def
        timedelta_seconds_def d_def [symmetric] us'_def off_def)
  also have "datetime_add (e - e mod 1000000 + us') off =
      (if datetime_min \<le> e - e mod 1000 + 1000 \<and> e - e mod 1000 + 1000 \<le> datetime_max
       then Inr (e - e mod 1000 + 1000) else Inl OverflowError)"
    unfolding datetime_add_def sum ..
  finally show ?thesis by (simp split: if_splits)
qed

lemma get_endtime_Some:
  assumes "datetime_min \<le> e" and "e - e mod 1000 + 1000 \<le> datetime_max"
  shows "get_endtime (Some e) = Inr (Some (e - e mod 1000 + 1000))"
proof -
  have "e mod 1000 < 1000" by simp
  with assms(1) have "datetime_min \<le> e - e mod 1000 + 1000" by linarith
  with assms(2) show ?thesis by (simp add: get_endtime_eq)
qed

lemma get_endtime_Inr:
  assumes "get_endtime (Some e) = Inr x"
  shows "x = Some (e - e mod 1000 + 1000)"
  using assms by (simp add: get_endtime_eq split: if_splits)

lemma carry_second:
  assumes "999000 \<le> (e::int) mod 1000000"
  shows "e - e mod 1000 + 1000 = 1000000 * (e div 1000000 + 1)"
proof -
  have "999000 div 1000 \<le> e mod 1000000 div (1000::int)"
    using assms by (rule zdiv_mono1) simp
  with ms_bounds [of e] have "e mod 1000000 div 1000 = 999" by simp
  with us_split [of e] have m: "e mod 1000000 = 999000 + e mod 1000" by simp
  define q where "q = e div 1000000"
  define r where "r = e mod 1000"
  have "e = 1000000 * q + e mod 1000000" by (simp add: q_def)
  with m have "e = 1000000 * q + (999000 + r)" by (simp add: r_def)
  then have "e - r + 1000 = 1000000 * (q + 1)" by simp
  then show ?thesis by (simp add: q_def r_def)
qed

lemma limit_rows_negative: "limit < 0 \<Longrightarrow> limit_rows limit rows = rows"
  by (simp add: limit_rows_def)

lemma Bucket_get_range:
  assumes "datetime_min \<le> end" and "end - end mod 1000 + 1000 \<le> datetime_max"
  shows "Bucket_get h limit (Some start) (Some end) st =
     get_events h limit (Some (start - start mod 1000)) (Some (end - end mod 1000 + 1000))
       (st\<lparr>calls := calls st @
            [Call_get_events h limit (Some (start - start mod 1000))
               (Some (end - end mod 1000 + 1000))]\<rparr>)"
  by (simp add: Bucket_get_def get_starttime_Some get_endtime_Some [OF assms])

text \<open>
  Claim C3 as stated fails for an end in the last millisecond of the year 9999: the
  next millisecond boundary is no datetime, the addition of the carried second raises
  \<open>OverflowError\<close>, and \<open>Bucket.get\<close> raises it whatever the bucket and the limit.
\<close>

theorem get_end_overflows_in_last_millisecond:
  "datetime_min \<le> 253402300799999456
   \<and> 253402300799999456 \<le> datetime_max
   \<and> get_endtime (Some 253402300799999456) = Inl OverflowError
   \<and> Bucket_get ''h'' (-1) (Some 36000123456) (Some 253402300799999456) two_event_store =
       (Inl OverflowError, two_event_store)"
  by (simp add: Bucket_get_def get_starttime_Some get_endtime_eq datetime_min_def datetime_max_def)

text \<open>
  Claim C3 as amended. For every start, and every end (a datetime) whose next
  millisecond boundary is still a datetime, \<open>Bucket.get\<close> calls the storage with the
  start truncated down to the millisecond and the end moved up to the next millisecond
  boundary, the carry into the seconds included, and neither replacement of the
  microsecond field raises. A start of 10:00:00.123456 becomes 10:00:00.123, an end of
  10:00:00.123456 becomes 10:00:00.124.
\<close>

theorem get_boundaries_normalized:
  assumes "datetime_min \<le> e" and "e - e mod 1000 + 1000 \<le> datetime_max"
  shows "Bucket_get h limit (Some s) (Some e) st =
       get_events h limit (Some (s - s mod 1000)) (Some (e - e mod 1000 + 1000))
         (st\<lparr>calls := calls st @
              [Call_get_events h limit (Some (s - s mod 1000))
                 (Some (e - e mod 1000 + 1000))]\<rparr>)
   \<and> get_starttime (Some s) = Inr (Some (s - s mod 1000))
   \<and> get_endtime (Some e) = Inr (Some (e - e mod 1000 + 1000))
   \<and> get_starttime (Some 36000123456) = Inr (Some 36000123000)
   \<and> get_endtime (Some 36000123456) = Inr (Some 36000124000)"
proof -
  have "get_endtime (Some 36000123456) = Inr (Some 36000124000)"
    by (simp add: get_endtime_eq datetime_min_def datetime_max_def)
  then show ?thesis
    by (simp add: Bucket_get_range [OF assms] get_starttime_Some get_endtime_Some [OF assms])
qed

theorem get_boundaries_normalized_witness:
  "datetime_min \<le> 36000123456
   \<and> (36000123456::int) - 36000123456 mod 1000 + 1000 \<le> datetime_max
   \<and> get_starttime (Some 36000123456) = Inr (Some (36000123456 - 36000123456 mod 1000))
   \<and> get_endtime (Some 36000123456) = Inr (Some (36000123456 - 36000123456 mod 1000 + 1000))"
proof -
  have a: "datetime_min \<le> 36000123456" by (simp add: datetime_min_def)
  have b: "(36000123456::int) - 36000123456 mod 1000 + 1000 \<le> datetime_max"
    by (simp add: datetime_max_def)
  from get_boundaries_normalized [OF a b, of "''h''" 0 36000123456 empty_bucket_store] a b
  show ?thesis by blast
qed

text \<open>
  Claim C9 as stated fails at the last millisecond boundary of the year 9999: the end
  23:59:59.999000 of 9999-12-31 lies on a millisecond boundary and its microsecond field
  is 999000, yet no later end is used; \<open>Bucket.get\<close> raises \<open>OverflowError\<close>.
\<close>

theorem get_aligned_end_overflows:
  "datetime_min \<le> 253402300799999000
   \<and> 253402300799999000 \<le> datetime_max
   \<and> microsecond 253402300799999000 mod 1000 = 0
   \<and> 999000 \<le> microsecond 253402300799999000
   \<and> get_endtime (Some 253402300799999000) = Inl OverflowError
   \<and> fst (Bucket_get ''h'' (-1) None (Some 253402300799999000) two_event_store) =
       Inl OverflowError"
  by (simp add: Bucket_get_def get_starttime_def get_endtime_eq microsecond_def
      datetime_min_def datetime_max_def)

text \<open>
  Claim C9 as amended. For every end (a datetime) whose next millisecond boundary is
  still a datetime: an end that lies on a millisecond boundary is moved one full
  millisecond later; an end whose microsecond field is 999000 or more is moved to the
  start of the next second; and the end used is always strictly later than the end
  given, by at most a millisecond, and on a millisecond boundary.
\<close>

theorem get_endtime_strictly_later:
  assumes "datetime_min \<le> e" and "e - e mod 1000 + 1000 \<le> datetime_max"
  shows "(microsecond e mod 1000 = 0 \<longrightarrow> get_endtime (Some e) = Inr (Some (e + 1000)))
   \<and> (999000 \<le> microsecond e \<longrightarrow>
        (\<exists>e'. get_endtime (Some e) = Inr (Some e') \<and> microsecond e' = 0
              \<and> e' div 1000000 = e div 1000000 + 1))
   \<and> (\<exists>e'. get_endtime (Some e) = Inr (Some e') \<and> e < e' \<and> e' \<le> e + 1000
              \<and> e' mod 1000 = 0)"
proof (intro conjI impI)
  assume "microsecond e mod 1000 = 0"
  moreover have "e mod 1000000 mod 1000 = e mod 1000"
    by (rule mod_mod_cancel) simp
  ultimately have "e mod 1000 = 0"
    by (simp add: microsecond_def)
  then show "get_endtime (Some e) = Inr (Some (e + 1000))"
    by (simp add: get_endtime_Some [OF assms])
next
  assume "999000 \<le> microsecond e"
  then have "e - e mod 1000 + 1000 = 1000000 * (e div 1000000 + 1)"
    by (simp add: microsecond_def carry_second)
  then show "\<exists>e'. get_endtime (Some e) = Inr (Some e') \<and> microsecond e' = 0
              \<and> e' div 1000000 = e div 1000000 + 1"
    by (simp add: get_endtime_Some [OF assms] microsecond_def)
next
  have "0 \<le> e mod 1000" "e mod 1000 < 1000" by simp_all
  moreover have "(e - e mod 1000 + 1000) mod 1000 = 0"
    by (simp add: mod_simps)
  ultimately show "\<exists>e'. get_endtime (Some e) = Inr (Some e') \<and> e < e' \<and> e' \<le> e + 1000
              \<and> e' mod 1000 = 0"
    by (simp add: get_endtime_Some [OF assms])
qed

theorem get_endtime_strictly_later_witness:
  "datetime_min \<le> 36000999000
   \<and> (36000999000::int) - 36000999000 mod 1000 + 1000 \<le> datetime_max
   \<and> microsecond 36000999000 mod 1000 = 0
   \<and> 999000 \<le> microsecond 36000999000
   \<and> get_endtime (Some 36000999000) = Inr (Some (36000999000 + 1000))
   \<and> (\<exists>e'. get_endtime (Some 36000999000) = Inr (Some e') \<and> microsecond e' = 0
              \<and> e' div 1000000 = 36000999000 div 1000000 + 1)"
proof -
  have a: "datetime_min \<le> 36000999000" by (simp add: datetime_min_def)
  have b: "(36000999000::int) - 36000999000 mod 1000 + 1000 \<le> datetime_max"
    by (simp add: datetime_max_def)
  have c: "microsecond 36000999000 mod 1000 = 0" by (simp add: microsecond_def)
  have d: "999000 \<le> microsecond 36000999000" by (simp add: microsecond_def)
  note inst = get_endtime_strictly_later [OF a b]
  from inst c have e: "get_endtime (Some 36000999000) = Inr (Some (36000999000 + 1000))"
    by blast
  from inst d
  have f: "\<exists>e'. get_endtime (Some 36000999000) = Inr (Some e') \<and> microsecond e' = 0
              \<and> e' div 1000000 = 36000999000 div 1000000 + 1" by blast
  from a b c d e f show ?thesis by blast
qed

section \<open>Range queries\<close>

lemma set_select_events_subset:
  "set (select_events k limit cond rows) \<subseteq> {r \<in> set rows. em_bucket r = k \<and> cond r}"
proof -
  have "set (limit_rows limit xs) \<subseteq> set xs" for xs :: "EventModel list"
    by (auto simp: limit_rows_def dest: in_set_takeD)
  then have "set (select_events k limit cond rows)
      \<subseteq> set (order_by_timestamp_desc (filter (\<lambda>r. em_bucket r = k \<and> cond r) rows))"
    unfolding select_events_def by blast
  then show ?thesis
    by (auto simp: order_by_timestamp_desc_def)
qed

lemma sorted_order_by_timestamp_desc:
  "sorted_wrt (\<lambda>x y. em_timestamp y \<le> em_timestamp x) (order_by_timestamp_desc rows)"
proof -
  have "sorted (map (\<lambda>r. - em_timestamp r) (sort_key (\<lambda>r. - em_timestamp r) rows))"
    by (rule sorted_sort_key)
  then show ?thesis
    by (simp add: order_by_timestamp_desc_def sorted_wrt_map)
qed

lemma sorted_select_events:
  "sorted_wrt (\<lambda>x y. em_timestamp y \<le> em_timestamp x) (select_events k limit cond rows)"
  by (simp add: select_events_def limit_rows_def sorted_order_by_timestamp_desc)

lemma select_events_unbounded:
  "limit < 0 \<Longrightarrow>
   select_events k limit cond rows =
     order_by_timestamp_desc (filter (\<lambda>r. em_bucket r = k \<and> cond r) rows)"
  by (simp add: select_events_def limit_rows_def)

lemma set_select_events_unbounded:
  "limit < 0 \<Longrightarrow>
   set (select_events k limit cond rows) = {r \<in> set rows. em_bucket r = k \<and> cond r}"
  by (auto simp: select_events_unbounded order_by_timestamp_desc_def)

lemma get_events_found:
  assumes "find (\<lambda>b. bm_hash_key b = h) (buckets st) = Some b" and "limit \<noteq> 0"
    and "where_range (unixepoch_ms st) starttime endtime = Inr cond"
  shows "get_events h limit starttime endtime st =
           (trim_all starttime endtime
              (map EventModel_json (select_events (bm_key b) limit cond (events st))),
            st\<lparr>executed := executed st @ [SELECT_BucketModel, SELECT_EventModel]\<rparr>)"
  using assms
  by (cases "trim_all starttime endtime
        (map EventModel_json (select_events (bm_key b) limit cond (events st)))")
    (simp_all add: get_events_def Let_def)

lemma trim_all_Inr:
  "trim_all starttime endtime xs = Inr ys \<Longrightarrow>
   length ys = length xs \<and> (\<forall>i < length xs. trim starttime endtime (xs ! i) = Inr (ys ! i))"
proof (induction xs arbitrary: ys)
  case Nil
  then show ?case by simp
next
  case (Cons x xs)
  from Cons.prems obtain y ys' where y: "trim starttime endtime x = Inr y"
    and ys': "trim_all starttime endtime xs = Inr ys'" and ys: "ys = y # ys'"
    by (auto split: sum.splits)
  from Cons.IH [OF ys'] have len: "length ys' = length xs"
    and rest: "\<forall>i < length xs. trim starttime endtime (xs ! i) = Inr (ys' ! i)"
    by simp_all
  have "trim starttime endtime ((x # xs) ! i) = Inr (ys ! i)" if "i < length (x # xs)" for i
  proof (cases i)
    case 0
    then show ?thesis by (simp add: y ys)
  next
    case (Suc j)
    with that rest show ?thesis by (simp add: ys)
  qed
  with len ys show ?case by simp
qed

lemma trim_Inr:
  assumes "trim (Some s) (Some e) x = Inr y"
  shows "event_id y = event_id x \<and> data y = data x \<and>
     timestamp y = (if timestamp x < s then s else timestamp x) \<and>
     duration y =
       (if timestamp x + duration x > e then e - timestamp y
        else if timestamp x < s then timestamp x + duration x - s
        else duration x) \<and>
     s \<le> timestamp y \<and> timestamp y + duration y \<le> e"
proof (cases "timestamp x < s")
  case True
  with assms show ?thesis
    by (auto simp: trim_def datetime_add_def split: if_splits)
next
  case False
  with assms show ?thesis
    by (auto simp: trim_def datetime_add_def split: if_splits)
qed

text \<open>
  What \<open>get_events\<close> returns for the range it is given: stored rows, trimmed to
  that range; the stored rows are the same after the query.
\<close>

lemma get_events_clips:
  assumes "get_events h limit (Some s) (Some e) st = (Inr evs, st')"
  shows "events st' = events st \<and> buckets st' = buckets st \<and>
     (\<exists>rows. set rows \<subseteq> set (events st) \<and> length rows = length evs \<and>
        (\<forall>i < length evs.
           event_id (evs ! i) = em_id (rows ! i) \<and>
           data (evs ! i) = em_datastr (rows ! i) \<and>
           timestamp (evs ! i) =
             (if em_timestamp (rows ! i) < s then s else em_timestamp (rows ! i)) \<and>
           duration (evs ! i) =
             (if em_timestamp (rows ! i) + em_duration (rows ! i) > e
              then e - timestamp (evs ! i)
              else if em_timestamp (rows ! i) < s
              then em_timestamp (rows ! i) + em_duration (rows ! i) - s
              else em_duration (rows ! i)) \<and>
           s \<le> timestamp (evs ! i) \<and> timestamp (evs ! i) + duration (evs ! i) \<le> e))"
proof (cases "limit = 0")
  case True
  with assms have "evs = []" "st' = st" by (simp_all add: get_events_def)
  then show ?thesis by simp
next
  case False
  show ?thesis
  proof (cases "find (\<lambda>b. bm_hash_key b = h) (buckets st)")
    case None
    with False assms show ?thesis by (simp add: get_events_def Let_def)
  next
    case (Some b)
    show ?thesis
    proof (cases "where_range (unixepoch_ms st) (Some s) (Some e)")
      case (Inl err)
      with False Some assms show ?thesis by (simp add: get_events_def Let_def)
    next
      case (Inr cond)
      define rows where "rows = select_events (bm_key b) limit cond (events st)"
      from get_events_found [OF Some False Inr] assms
      have ta: "trim_all (Some s) (Some e) (map EventModel_json rows) = Inr evs"
        and st': "st' = st\<lparr>executed := executed st @ [SELECT_BucketModel, SELECT_EventModel]\<rparr>"
        by (simp_all add: rows_def)
      from trim_all_Inr [OF ta] have len: "length rows = length evs"
        and tr: "\<forall>i < length rows.
            trim (Some s) (Some e) (EventModel_json (rows ! i)) = Inr (evs ! i)"
        by simp_all
      have sub: "set rows \<subseteq> set (events st)"
        using set_select_events_subset [of "bm_key b" limit cond "events st"]
        by (auto simp: rows_def)
      have each: "event_id (evs ! i) = em_id (rows ! i) \<and>
           data (evs ! i) = em_datastr (rows ! i) \<and>
           timestamp (evs ! i) =
             (if em_timestamp (rows ! i) < s then s else em_timestamp (rows ! i)) \<and>
           duration (evs ! i) =
             (if em_timestamp (rows ! i) + em_duration (rows ! i) > e
              then e - timestamp (evs ! i)
              else if em_timestamp (rows ! i) < s
              then em_timestamp (rows ! i) + em_duration (rows ! i) - s
              else em_duration (rows ! i)) \<and>
           s \<le> timestamp (evs ! i) \<and> timestamp (evs ! i) + duration (evs ! i) \<le> e"
        if "i < length evs" for i
      proof -
        from that len tr
        have "trim (Some s) (Some e) (EventModel_json (rows ! i)) = Inr (evs ! i)" by simp
        from trim_Inr [OF this] show ?thesis by (simp add: EventModel_json_def)
      qed
      from sub len each st' show ?thesis by auto
    qed
  qed
qed

lemma where_range_Some:
  assumes "datetime_min + timedelta_hours 24 \<le> s" and "s \<le> datetime_max"
  shows "where_range db (Some s) (Some e) =
     Inr (\<lambda>r. s - timedelta_hours 24 \<le> em_timestamp r \<and>
              (case db (em_timestamp r) (em_duration r) of
                 None \<Rightarrow> False
               | Some ms \<Rightarrow> sql_text_le (isoformat_text s) (strftime_text ms)) \<and>
              em_timestamp r \<le> e)"
proof -
  have "0 \<le> timedelta_hours 24" by (simp add: timedelta_hours_def)
  with assms have "datetime_add s (- timedelta_hours 24) = Inr (s - timedelta_hours 24)"
    by (simp add: datetime_add_def)
  then show ?thesis
    by (auto simp: where_range_def dt_plus_duration_def isoformat_text_le fun_eq_iff
        split: option.splits)
qed

lemmas example_defs =
  example_bucket_def empty_bucket_store_def first_row_def second_row_def
  two_event_store_def long_row_def long_event_store_def new_event_def stale_event_def
  millisecond_row_def near_second_row_def round_to_ms_def

lemmas range_query_defs =
  get_events_def where_range_def datetime_add_def datetime_min_def datetime_max_def
  timedelta_hours_def dt_plus_duration_def isoformat_text_le isoformat_strftime_le
  select_events_def limit_rows_def order_by_timestamp_desc_def trim_def
  EventModel_json_def Let_def

text \<open>
  Claim C2 as stated fails: the query first drops every row that starts more than 24
  hours before the start. The event \<open>[00:00, 26:00)\<close> reaches into the range
  \<open>[25:00, 27:00]\<close> and is stored in the bucket, yet \<open>Bucket.get\<close> with no limit
  returns nothing.
\<close>

theorem get_drops_event_longer_than_24h:
  "long_row \<in> set (events long_event_store)
   \<and> bucket_hash_keys long_event_store ''h'' = Some (em_bucket long_row)
   \<and> em_timestamp long_row \<le> 97200000000
   \<and> 90000000000 < em_timestamp long_row + em_duration long_row
   \<and> em_timestamp long_row < 90000000000 - timedelta_hours 24
   \<and> fst (Bucket_get ''h'' (-1) (Some 90000000000) (Some 97200000000) long_event_store) = Inr []"
  by (simp add: Bucket_get_def get_starttime_Some get_endtime_eq range_query_defs example_defs)

text \<open>
  Claim C2 as amended. Let \<open>s\<close> be the start truncated to the millisecond and \<open>e\<close> the
  end moved up to the next millisecond boundary, both datetimes, with \<open>s\<close> at least
  24 hours after the earliest datetime. For a bucket that exists, \<open>Bucket.get\<close> returns
  the trimmed rows of the query; these rows are ordered by timestamp descending; every
  one of them is a stored event of the bucket with a timestamp from 24 hours before
  \<open>s\<close> up to \<open>e\<close>, so an event that starts earlier than 24 hours before \<open>s\<close> is
  never returned. With no limit (a negative one) the rows include every stored event of
  the bucket whose timestamp is not later than \<open>end\<close> and not earlier than 24 hours
  before \<open>start\<close> and whose interval reaches at least two milliseconds past
  \<open>start\<close>, provided the database computes the end of that event no more than a
  millisecond too early. Events that end within two milliseconds of \<open>start\<close> are left
  open: there the comparison of the two texts decides.
\<close>

theorem get_includes_events_within_24h:
  assumes "find (\<lambda>b. bm_hash_key b = h) (buckets st) = Some b" and "limit \<noteq> 0"
    and "s = start - start mod 1000" and "e = end - end mod 1000 + 1000"
    and "datetime_min + timedelta_hours 24 \<le> s" and "start \<le> datetime_max"
    and "datetime_min \<le> end" and "e \<le> datetime_max"
  shows "\<exists>cond rows.
      where_range (unixepoch_ms st) (Some s) (Some e) = Inr cond
      \<and> rows = select_events (bm_key b) limit cond (events st)
      \<and> fst (Bucket_get h limit (Some start) (Some end) st) =
          trim_all (Some s) (Some e) (map EventModel_json rows)
      \<and> sorted_wrt (\<lambda>x y. em_timestamp y \<le> em_timestamp x) rows
      \<and> (\<forall>r \<in> set rows.
            r \<in> set (events st) \<and> em_bucket r = bm_key b \<and>
            s - timedelta_hours 24 \<le> em_timestamp r \<and> em_timestamp r \<le> e)
      \<and> (\<forall>r \<in> set (events st).
            limit < 0 \<longrightarrow> em_bucket r = bm_key b \<longrightarrow>
            em_timestamp r \<le> end \<longrightarrow> start - timedelta_hours 24 \<le> em_timestamp r \<longrightarrow>
            start + 2000 \<le> em_timestamp r + em_duration r \<longrightarrow>
            (\<exists>ms. unixepoch_ms st (em_timestamp r) (em_duration r) = Some ms \<and>
                  em_timestamp r + em_duration r \<le> 1000 * ms + 1000) \<longrightarrow>
            r \<in> set rows)"
proof -
  define cond where "cond = (\<lambda>r::EventModel. s - timedelta_hours 24 \<le> em_timestamp r \<and>
              (case unixepoch_ms st (em_timestamp r) (em_duration r) of
                 None \<Rightarrow> False
               | Some ms \<Rightarrow> sql_text_le (isoformat_text s) (strftime_text ms)) \<and>
              em_timestamp r \<le> e)"
  define rows where "rows = select_events (bm_key b) limit cond (events st)"
  define st0 where "st0 = st\<lparr>calls := calls st @ [Call_get_events h limit (Some s) (Some e)]\<rparr>"
  have "0 \<le> start mod 1000" "start mod 1000 < 1000" "0 \<le> end mod 1000" "end mod 1000 < 1000"
    by simp_all
  then have s_le: "s \<le> start" and s_gt: "start < s + 1000" and e_ge: "end \<le> e"
    by (simp_all add: assms(3,4))
  have s_ms: "s mod 1000 = 0" by (simp add: assms(3) mod_simps)
  from s_le assms(6) have s_max: "s \<le> datetime_max" by simp
  have wr: "where_range (unixepoch_ms st) (Some s) (Some e) = Inr cond"
    unfolding cond_def by (rule where_range_Some [OF assms(5) s_max])
  have bg: "Bucket_get h limit (Some start) (Some end) st =
      get_events h limit (Some s) (Some e) st0"
  proof -
    from assms(4,8) have "end - end mod 1000 + 1000 \<le> datetime_max" by simp
    from Bucket_get_range [OF assms(7) this] show ?thesis
      by (simp add: assms(3,4) st0_def)
  qed
  have "find (\<lambda>b. bm_hash_key b = h) (buckets st0) = Some b"
    "where_range (unixepoch_ms st0) (Some s) (Some e) = Inr cond"
    using assms(1) wr by (simp_all add: st0_def)
  from get_events_found [OF this(1) assms(2) this(2)]
  have res: "fst (Bucket_get h limit (Some start) (Some end) st) =
      trim_all (Some s) (Some e) (map EventModel_json rows)"
    by (simp add: bg rows_def st0_def)
  have srt: "sorted_wrt (\<lambda>x y. em_timestamp y \<le> em_timestamp x) rows"
    unfolding rows_def by (rule sorted_select_events)
  have only: "r \<in> set (events st) \<and> em_bucket r = bm_key b \<and>
      s - timedelta_hours 24 \<le> em_timestamp r \<and> em_timestamp r \<le> e"
    if "r \<in> set rows" for r
    using that set_select_events_subset [of "bm_key b" limit cond "events st"]
    by (auto simp: rows_def cond_def)
  have incl: "r \<in> set rows"
    if r: "r \<in> set (events st)" "limit < 0" "em_bucket r = bm_key b" "em_timestamp r \<le> end"
      "start - timedelta_hours 24 \<le> em_timestamp r"
      "start + 2000 \<le> em_timestamp r + em_duration r"
      and db: "\<exists>ms. unixepoch_ms st (em_timestamp r) (em_duration r) = Some ms \<and>
                  em_timestamp r + em_duration r \<le> 1000 * ms + 1000"
    for r
  proof -
    from db obtain ms where ms: "unixepoch_ms st (em_timestamp r) (em_duration r) = Some ms"
      and near: "em_timestamp r + em_duration r \<le> 1000 * ms + 1000" by blast
    define S where "S = s div 1000"
    from s_ms have sS: "s = 1000 * S"
      using mult_div_mod_eq [of 1000 s] by (simp add: S_def)
    from r(6) near s_le have "1000 * S + 1000 \<le> 1000 * ms" unfolding sS by linarith
    then have "S < ms" by linarith
    then have "sql_text_le (isoformat_text s) (strftime_text ms)"
      by (simp add: isoformat_strftime_le_ms [OF s_ms] S_def)
    with ms r(4,5) s_le e_ge have "cond r" by (simp add: cond_def)
    with r(1,2,3) show ?thesis
      by (simp add: rows_def set_select_events_unbounded)
  qed
  from wr res srt only incl show ?thesis
    unfolding rows_def by blast
qed

theorem get_includes_events_within_24h_witness:
  "find (\<lambda>b. bm_hash_key b = ''h'') (buckets two_event_store) = Some example_bucket
   \<and> (-1::int) \<noteq> 0
   \<and> datetime_min + timedelta_hours 24 \<le> 36002000000 - 36002000000 mod 1000
   \<and> 36002000000 \<le> datetime_max
   \<and> datetime_min \<le> 36004500000
   \<and> (36004500000::int) - 36004500000 mod 1000 + 1000 \<le> datetime_max
   \<and> first_row \<in> set (events two_event_store)
   \<and> (\<exists>rows. fst (Bucket_get ''h'' (-1) (Some 36002000000) (Some 36004500000) two_event_store) =
          trim_all (Some (36002000000 - 36002000000 mod 1000))
            (Some (36004500000 - 36004500000 mod 1000 + 1000)) (map EventModel_json rows)
        \<and> first_row \<in> set rows)"
proof -
  have a: "find (\<lambda>b. bm_hash_key b = ''h'') (buckets two_event_store) = Some example_bucket"
    by (simp add: example_defs)
  have b: "(-1::int) \<noteq> 0" by simp
  have c: "datetime_min + timedelta_hours 24 \<le> 36002000000 - 36002000000 mod 1000"
    by (simp add: datetime_min_def timedelta_hours_def)
  have d: "36002000000 \<le> datetime_max" by (simp add: datetime_max_def)
  have e: "datetime_min \<le> 36004500000" by (simp add: datetime_min_def)
  have f: "(36004500000::int) - 36004500000 mod 1000 + 1000 \<le> datetime_max"
    by (simp add: datetime_max_def)
  have g: "first_row \<in> set (events two_event_store)" by (simp add: example_defs)
  from get_includes_events_within_24h [OF a b refl refl c d e f]
  obtain cond rows
    where res: "fst (Bucket_get ''h'' (-1) (Some 36002000000) (Some 36004500000) two_event_store) =
          trim_all (Some (36002000000 - 36002000000 mod 1000))
            (Some (36004500000 - 36004500000 mod 1000 + 1000)) (map EventModel_json rows)"
      and incl: "\<forall>r \<in> set (events two_event_store).
            (-1::int) < 0 \<longrightarrow> em_bucket r = bm_key example_bucket \<longrightarrow>
            em_timestamp r \<le> 36004500000 \<longrightarrow>
            36002000000 - timedelta_hours 24 \<le> em_timestamp r \<longrightarrow>
            36002000000 + 2000 \<le> em_timestamp r + em_duration r \<longrightarrow>
            (\<exists>ms. unixepoch_ms two_event_store (em_timestamp r) (em_duration r) = Some ms \<and>
                  em_timestamp r + em_duration r \<le> 1000 * ms + 1000) \<longrightarrow>
            r \<in> set rows"
    by blast
  have "first_row \<in> set rows"
  proof -
    have "em_bucket first_row = bm_key example_bucket" "em_timestamp first_row \<le> 36004500000"
      "36002000000 - timedelta_hours 24 \<le> em_timestamp first_row"
      "36002000000 + 2000 \<le> em_timestamp first_row + em_duration first_row"
      "\<exists>ms. unixepoch_ms two_event_store (em_timestamp first_row) (em_duration first_row) = Some ms \<and>
            em_timestamp first_row + em_duration first_row \<le> 1000 * ms + 1000"
      by (simp_all add: example_defs timedelta_hours_def)
    with incl g show ?thesis by simp
  qed
  with res have "\<exists>rows. fst (Bucket_get ''h'' (-1) (Some 36002000000) (Some 36004500000) two_event_store) =
          trim_all (Some (36002000000 - 36002000000 mod 1000))
            (Some (36004500000 - 36004500000 mod 1000 + 1000)) (map EventModel_json rows)
        \<and> first_row \<in> set rows"
    by blast
  with a b c d e f g show ?thesis by blast
qed

text \<open>
  Where the two texts decide. A range that starts at 10:00:05.123 does not return the
  row that ends at 10:00:05.123400, although the row reaches past the start: the
  parameter is written with six digits, the end with three, and \<open>0\<close> sorts after
  \<open>+\<close>. A range that starts at 10:00:05 returns the row that ends at
  10:00:04.999600, before the start: the end is rounded to 10:00:05.000 and the
  parameter is written without fraction; the row is reported with the duration -400
  microseconds.
\<close>

lemma get_drops_row_ending_in_start_millisecond:
  "em_timestamp millisecond_row \<le> 36005123000
   \<and> 36005123000 < em_timestamp millisecond_row + em_duration millisecond_row
   \<and> fst (Bucket_get ''h'' (-1) (Some 36005123000) (Some 36006000000)
            (empty_bucket_store\<lparr>events := [millisecond_row]\<rparr>)) = Inr []"
  by (simp add: Bucket_get_def get_starttime_Some get_endtime_eq range_query_defs example_defs)

lemma get_keeps_row_ending_before_whole_second_start:
  "em_timestamp near_second_row + em_duration near_second_row < 36005000000
   \<and> fst (Bucket_get ''h'' (-1) (Some 36005000000) (Some 36006000000)
            (empty_bucket_store\<lparr>events := [near_second_row]\<rparr>)) =
       Inr [\<lparr>event_id = Some 1, timestamp = 36005000000, duration = - 400, data = ''{}''\<rparr>]"
  by (simp add: Bucket_get_def get_starttime_Some get_endtime_eq range_query_defs example_defs)

text \<open>
  Claim C4 as stated fails for the window the caller asks for: the events are trimmed
  to the boundaries \<open>Bucket.get\<close> hands to the storage, and the end among them is
  always later than the end asked for. For the two events \<open>[10:00:00, 10:00:05)\<close> and
  \<open>[10:00:04, 10:00:06)\<close> and the range from 10:00:02 to 10:00:04.5, both reported
  intervals end at 10:00:04.501.
\<close>

theorem get_reports_past_requested_end:
  "fst (Bucket_get ''h'' (-1) (Some 36002000000) (Some 36004500000) two_event_store) =
     Inr [\<lparr>event_id = Some 2, timestamp = 36004000000, duration = 501000, data = ''{}''\<rparr>,
          \<lparr>event_id = Some 1, timestamp = 36002000000, duration = 2501000, data = ''{}''\<rparr>]
   \<and> (36004500000::int) < 36004000000 + 501000
   \<and> (36004500000::int) < 36002000000 + 2501000"
  by (simp add: Bucket_get_def get_starttime_Some get_endtime_eq range_query_defs example_defs)

text \<open>
  Claim C4 as amended. Let \<open>s\<close> be the start truncated to the millisecond and \<open>e\<close> the
  end moved up to the next millisecond boundary. Every event \<open>Bucket.get\<close> returns for
  the range is a stored row, trimmed: a row that starts before \<open>s\<close> is reported at
  \<open>s\<close>, with the duration up to its own end; a row that ends after \<open>e\<close> is reported
  with the duration \<open>e\<close> minus the reported timestamp; a row inside is reported as
  stored. Each reported interval lies within \<open>[s, e]\<close>, and the stored rows are the
  same after the query.
\<close>

theorem get_clips_to_normalised_range:
  assumes "Bucket_get h limit (Some start) (Some end) st = (Inr evs, st')"
    and "s = start - start mod 1000" and "e = end - end mod 1000 + 1000"
  shows "events st' = events st \<and> buckets st' = buckets st \<and>
     (\<exists>rows. set rows \<subseteq> set (events st) \<and> length rows = length evs \<and>
        (\<forall>i < length evs.
           event_id (evs ! i) = em_id (rows ! i) \<and>
           data (evs ! i) = em_datastr (rows ! i) \<and>
           timestamp (evs ! i) =
             (if em_timestamp (rows ! i) < s then s else em_timestamp (rows ! i)) \<and>
           duration (evs ! i) =
             (if em_timestamp (rows ! i) + em_duration (rows ! i) > e
              then e - timestamp (evs ! i)
              else if em_timestamp (rows ! i) < s
              then em_timestamp (rows ! i) + em_duration (rows ! i) - s
              else em_duration (rows ! i)) \<and>
           s \<le> timestamp (evs ! i) \<and> timestamp (evs ! i) + duration (evs ! i) \<le> e))"
proof (cases "get_endtime (Some end)")
  case (Inl err)
  with assms(1) show ?thesis
    by (simp add: Bucket_get_def get_starttime_Some)
next
  case (Inr x)
  from get_endtime_Inr [OF Inr] have x: "x = Some e" by (simp add: assms(3))
  define st0 where "st0 = st\<lparr>calls := calls st @ [Call_get_events h limit (Some s) (Some e)]\<rparr>"
  from assms(1) have "get_events h limit (Some s) (Some e) st0 = (Inr evs, st')"
    by (simp add: Bucket_get_def get_starttime_Some Inr x assms(2) st0_def)
  from get_events_clips [OF this] show ?thesis by (simp add: st0_def)
qed

theorem get_clips_to_normalised_range_witness:
  "Bucket_get ''h'' (-1) (Some 36002000000) (Some 36004500000) two_event_store =
     (Inr [\<lparr>event_id = Some 2, timestamp = 36004000000, duration = 501000, data = ''{}''\<rparr>,
           \<lparr>event_id = Some 1, timestamp = 36002000000, duration = 2501000, data = ''{}''\<rparr>],
      two_event_store
        \<lparr>calls := [Call_get_events ''h'' (-1) (Some 36002000000) (Some 36004501000)],
         executed := [SELECT_BucketModel, SELECT_EventModel]\<rparr>)
   \<and> (36002000000::int) = 36002000000 - 36002000000 mod 1000
   \<and> (36004501000::int) = 36004500000 - 36004500000 mod 1000 + 1000
   \<and> events (two_event_store
        \<lparr>calls := [Call_get_events ''h'' (-1) (Some 36002000000) (Some 36004501000)],
         executed := [SELECT_BucketModel, SELECT_EventModel]\<rparr>) =
       events two_event_store"
proof -
  have a: "Bucket_get ''h'' (-1) (Some 36002000000) (Some 36004500000) two_event_store =
     (Inr [\<lparr>event_id = Some 2, timestamp = 36004000000, duration = 501000, data = ''{}''\<rparr>,
           \<lparr>event_id = Some 1, timestamp = 36002000000, duration = 2501000, data = ''{}''\<rparr>],
      two_event_store
        \<lparr>calls := [Call_get_events ''h'' (-1) (Some 36002000000) (Some 36004501000)],
         executed := [SELECT_BucketModel, SELECT_EventModel]\<rparr>)"
    by (simp add: Bucket_get_def get_starttime_Some get_endtime_eq range_query_defs example_defs)
  have b: "(36002000000::int) = 36002000000 - 36002000000 mod 1000" by simp
  have c: "(36004501000::int) = 36004500000 - 36004500000 mod 1000 + 1000" by simp
  from get_clips_to_normalised_range [OF a b c] a b c show ?thesis by blast
qed

section \<open>The limit\<close>

text \<open>
  Claim C5 as stated fails twice. \<open>Bucket.get\<close> has no test of the limit: with
  \<open>limit = 0\<close> it still calls the storage's \<open>get_events\<close>, and it is that method
  which returns the empty list before it runs a statement. And with an end in the last
  millisecond of the year 9999, \<open>Bucket.get\<close> returns no list at all: the
  normalisation of the end raises \<open>OverflowError\<close>, for \<open>limit = 0\<close> as for any other.
\<close>

theorem get_limit_zero_calls_storage:
  "calls empty_bucket_store = []
   \<and> calls (snd (Bucket_get ''h'' 0 None None empty_bucket_store)) =
       [Call_get_events ''h'' 0 None None]
   \<and> datetime_min \<le> 253402300799999500
   \<and> 253402300799999500 \<le> datetime_max
   \<and> Bucket_get ''h'' 0 None (Some 253402300799999500) empty_bucket_store =
       (Inl OverflowError, empty_bucket_store)"
proof -
  have n: "get_endtime None = Inr None" by (simp add: get_endtime_def)
  have o: "get_endtime (Some 253402300799999500) = Inl OverflowError"
    by (simp add: get_endtime_eq datetime_min_def datetime_max_def)
  show ?thesis
    by (simp add: Bucket_get_def get_starttime_def n o get_events_def
        datetime_min_def datetime_max_def example_defs)
qed

text \<open>
  Claim C5 as amended. For every bucket handle, every start and every end that is
  absent or a datetime whose next millisecond boundary is still a datetime: \<open>Bucket.get\<close>
  with \<open>limit = 0\<close> returns the empty list; it makes one call of the storage's
  \<open>get_events\<close>, with the normalised boundaries, and that call runs no statement on
  the database, so the datastore is otherwise as it was. With a negative limit no
  selected row is cut off.
\<close>

theorem get_limit_zero_and_negative:
  assumes "endtime = None \<or>
      (\<exists>x. endtime = Some x \<and> datetime_min \<le> x \<and> x - x mod 1000 + 1000 \<le> datetime_max)"
  shows "\<exists>s e. get_starttime starttime = Inr s \<and> get_endtime endtime = Inr e
     \<and> Bucket_get h 0 starttime endtime st =
         (Inr [], st\<lparr>calls := calls st @ [Call_get_events h 0 s e]\<rparr>)
     \<and> executed (snd (Bucket_get h 0 starttime endtime st)) = executed st
     \<and> (\<forall>b cond. limit < 0 \<longrightarrow> find (\<lambda>b. bm_hash_key b = h) (buckets st) = Some b \<longrightarrow>
          where_range (unixepoch_ms st) s e = Inr cond \<longrightarrow>
          fst (Bucket_get h limit starttime endtime st) =
            trim_all s e
              (map EventModel_json
                 (order_by_timestamp_desc
                    (filter (\<lambda>r. em_bucket r = bm_key b \<and> cond r) (events st)))))"
proof -
  obtain s where s: "get_starttime starttime = Inr s"
    using get_starttime_total by blast
  from assms obtain e where e: "get_endtime endtime = Inr e"
  proof
    assume "endtime = None"
    then have "get_endtime endtime = Inr None" by (simp add: get_endtime_def)
    then show ?thesis by (rule that)
  next
    assume "\<exists>x. endtime = Some x \<and> datetime_min \<le> x \<and> x - x mod 1000 + 1000 \<le> datetime_max"
    then obtain x where "endtime = Some x" "datetime_min \<le> x"
      "x - x mod 1000 + 1000 \<le> datetime_max" by blast
    then have "get_endtime endtime = Inr (Some (x - x mod 1000 + 1000))"
      by (simp add: get_endtime_Some)
    then show ?thesis by (rule that)
  qed
  have zero: "Bucket_get h 0 starttime endtime st =
         (Inr [], st\<lparr>calls := calls st @ [Call_get_events h 0 s e]\<rparr>)"
    by (simp add: Bucket_get_def s e get_events_def)
  have neg: "fst (Bucket_get h limit starttime endtime st) =
            trim_all s e
              (map EventModel_json
                 (order_by_timestamp_desc
                    (filter (\<lambda>r. em_bucket r = bm_key b \<and> cond r) (events st))))"
    if "limit < 0" "find (\<lambda>b. bm_hash_key b = h) (buckets st) = Some b"
      "where_range (unixepoch_ms st) s e = Inr cond" for b cond
  proof -
    define st0 where "st0 = st\<lparr>calls := calls st @ [Call_get_events h limit s e]\<rparr>"
    from that have "find (\<lambda>b. bm_hash_key b = h) (buckets st0) = Some b" "limit \<noteq> 0"
      "where_range (unixepoch_ms st0) s e = Inr cond"
      by (simp_all add: st0_def)
    from get_events_found [OF this] that(1) show ?thesis
      by (simp add: Bucket_get_def s e st0_def select_events_unbounded)
  qed
  from s e zero neg show ?thesis by (intro exI [of _ s] exI [of _ e]) simp
qed

theorem get_limit_zero_and_negative_witness:
  "(Some (36010000000::int) = None \<or>
      (\<exists>x. Some (36010000000::int) = Some x \<and> datetime_min \<le> x \<and>
           x - x mod 1000 + 1000 \<le> datetime_max))
   \<and> Bucket_get ''h'' 0 None (Some 36010000000) two_event_store =
       (Inr [], two_event_store\<lparr>calls := [Call_get_events ''h'' 0 None (Some 36010001000)]\<rparr>)
   \<and> executed (snd (Bucket_get ''h'' 0 None (Some 36010000000) two_event_store)) = []
   \<and> fst (Bucket_get ''h'' (-1) None (Some 36010000000) two_event_store) =
       Inr [EventModel_json second_row, EventModel_json first_row]"
proof -
  have a: "Some (36010000000::int) = None \<or>
      (\<exists>x. Some (36010000000::int) = Some x \<and> datetime_min \<le> x \<and>
           x - x mod 1000 + 1000 \<le> datetime_max)"
    by (simp add: datetime_min_def datetime_max_def)
  have s: "get_starttime None = Inr None" by (simp add: get_starttime_def)
  have e: "get_endtime (Some 36010000000) = Inr (Some 36010001000)"
    by (simp add: get_endtime_eq datetime_min_def datetime_max_def)
  have cl: "calls two_event_store = []" and ex: "executed two_event_store = []"
    by (simp_all add: example_defs)
  have fb: "find (\<lambda>b. bm_hash_key b = ''h'') (buckets two_event_store) = Some example_bucket"
    by (simp add: example_defs)
  have wr: "where_range (unixepoch_ms two_event_store) None (Some 36010001000) =
      Inr (\<lambda>r. em_timestamp r \<le> 36010001000)"
    by (simp add: where_range_def isoformat_text_le)
  from get_limit_zero_and_negative [OF a, of None "''h''" two_event_store "-1"]
  obtain s' e' where s': "get_starttime None = Inr s'"
    and e': "get_endtime (Some 36010000000) = Inr e'"
    and zero: "Bucket_get ''h'' 0 None (Some 36010000000) two_event_store =
         (Inr [], two_event_store\<lparr>calls := calls two_event_store @ [Call_get_events ''h'' 0 s' e']\<rparr>)"
    and exe: "executed (snd (Bucket_get ''h'' 0 None (Some 36010000000) two_event_store)) =
         executed two_event_store"
    and neg: "\<forall>b cond. (-1::int) < 0 \<longrightarrow>
          find (\<lambda>b. bm_hash_key b = ''h'') (buckets two_event_store) = Some b \<longrightarrow>
          where_range (unixepoch_ms two_event_store) s' e' = Inr cond \<longrightarrow>
          fst (Bucket_get ''h'' (-1) None (Some 36010000000) two_event_store) =
            trim_all s' e'
              (map EventModel_json
                 (order_by_timestamp_desc
                    (filter (\<lambda>r. em_bucket r = bm_key b \<and> cond r) (events two_event_store))))"
    by blast
  from s s' have s'_eq: "s' = None" by simp
  from e e' have e'_eq: "e' = Some 36010001000" by simp
  from zero have z: "Bucket_get ''h'' 0 None (Some 36010000000) two_event_store =
       (Inr [], two_event_store\<lparr>calls := [Call_get_events ''h'' 0 None (Some 36010001000)]\<rparr>)"
    by (simp add: s'_eq e'_eq cl)
  from exe have x: "executed (snd (Bucket_get ''h'' 0 None (Some 36010000000) two_event_store)) = []"
    by (simp add: ex)
  from neg fb wr
  have "fst (Bucket_get ''h'' (-1) None (Some 36010000000) two_event_store) =
            trim_all None (Some 36010001000)
              (map EventModel_json
                 (order_by_timestamp_desc
                    (filter (\<lambda>r. em_bucket r = bm_key example_bucket \<and> em_timestamp r \<le> 36010001000)
                       (events two_event_store))))"
    unfolding s'_eq e'_eq by simp
  then have n: "fst (Bucket_get ''h'' (-1) None (Some 36010000000) two_event_store) =
       Inr [EventModel_json second_row, EventModel_json first_row]"
    by (simp add: example_defs order_by_timestamp_desc_def trim_def datetime_add_def
        datetime_min_def datetime_max_def EventModel_json_def)
  from a z x n show ?thesis by blast
qed

section \<open>Insertion of something that is no event\<close>

text \<open>
  Claim C10. \<open>Bucket.insert\<close> of an argument that is neither an \<open>Event\<close> nor a list
  raises \<open>TypeError\<close> and leaves the datastore as it was: no call is made on the
  storage, no statement is executed and the stored events are unchanged.
\<close>

theorem insert_other_raises_TypeError:
  "Bucket_insert h now Other st = (Inl TypeError, st)"
  by (simp add: Bucket_insert_def)

section \<open>Bucket creation under two owners\<close>

text \<open>
  Claim C1, at the failing input. After \<open>create_bucket\<close> has been called with a bucket
  id, a second call with the same id fails with \<open>IntegrityError\<close> whatever the owners
  are: the column \<open>id\<close> is unique over the whole table.
\<close>

theorem create_bucket_same_id_other_owner_fails:
  "fst (create_bucket md5 bucket_id t2 c2 h2 cr2 n2 d2 owner2
          (snd (create_bucket md5 bucket_id t1 c1 h1 cr1 n1 d1 owner1 st))) = Inl IntegrityError"
  by (simp add: create_bucket_def Let_def update_bucket_hash_keys_def)

section \<open>Replacing the last event\<close>

lemma get_last_empty:
  assumes "bucket_hash_keys st h = Some k"
    and "filter (\<lambda>r. em_bucket r = k) (events st) = []"
  shows "get_last h st =
           (Inl EventModel_DoesNotExist, st\<lparr>executed := executed st @ [SELECT_EventModel]\<rparr>)"
  using assms by (simp add: get_last_def order_by_timestamp_desc_def)

lemma get_last_nonempty:
  assumes "bucket_hash_keys st h = Some k"
    and "filter (\<lambda>r. em_bucket r = k) (events st) \<noteq> []"
  shows "\<exists>r \<in> set (events st). em_bucket r = k \<and>
           (\<forall>r' \<in> set (events st). em_bucket r' = k \<longrightarrow> em_timestamp r' \<le> em_timestamp r) \<and>
           get_last h st = (Inr r, st\<lparr>executed := executed st @ [SELECT_EventModel]\<rparr>)"
proof -
  define sel where "sel = filter (\<lambda>r. em_bucket r = k) (events st)"
  define ord where "ord = order_by_timestamp_desc sel"
  have "set ord = set sel" by (simp add: ord_def order_by_timestamp_desc_def)
  moreover from assms(2) have "sel \<noteq> []" by (simp add: sel_def)
  ultimately have "ord \<noteq> []" by auto
  then obtain r rest where ord: "ord = r # rest" by (cases ord) auto
  have "sorted_wrt (\<lambda>x y. em_timestamp y \<le> em_timestamp x) ord"
    unfolding ord_def by (rule sorted_order_by_timestamp_desc)
  with ord have top: "\<forall>x \<in> set ord. em_timestamp x \<le> em_timestamp r" by auto
  have mem: "set ord = {x \<in> set (events st). em_bucket x = k}"
    using \<open>set ord = set sel\<close> by (auto simp: sel_def)
  from ord mem have r: "r \<in> set (events st)" "em_bucket r = k" by auto
  from top mem have mx: "\<forall>r' \<in> set (events st). em_bucket r' = k \<longrightarrow> em_timestamp r' \<le> em_timestamp r"
    by auto
  have "get_last h st = (Inr r, st\<lparr>executed := executed st @ [SELECT_EventModel]\<rparr>)"
    using assms(1) ord by (simp add: get_last_def Let_def ord_def sel_def)
  with r mx show ?thesis by blast
qed

text \<open>
  Claim C7. In a bucket the storage knows, with every stored row carrying its primary
  key: when the bucket has no events, \<open>replace_last\<close> raises \<open>EventModel.DoesNotExist\<close>
  (the error of an empty bucket) and the stored events are unchanged; otherwise it
  overwrites timestamp, duration and data of a row of the bucket whose timestamp is the
  greatest, keeps that row's id and bucket, returns the event with that id, and leaves
  every other row as it was.
\<close>

theorem replace_last_overwrites_latest:
  assumes "bucket_hash_keys st h = Some k"
    and "\<forall>r \<in> set (events st). em_id r \<noteq> None"
  shows "(filter (\<lambda>r. em_bucket r = k) (events st) = [] \<longrightarrow>
            fst (Bucket_replace_last h ev st) = Inl EventModel_DoesNotExist \<and>
            events (snd (Bucket_replace_last h ev st)) = events st)
       \<and> (filter (\<lambda>r. em_bucket r = k) (events st) \<noteq> [] \<longrightarrow>
            (\<exists>r \<in> set (events st). em_bucket r = k \<and>
               (\<forall>r' \<in> set (events st). em_bucket r' = k \<longrightarrow> em_timestamp r' \<le> em_timestamp r) \<and>
               fst (Bucket_replace_last h ev st) = Inr (ev\<lparr>event_id := em_id r\<rparr>) \<and>
               events (snd (Bucket_replace_last h ev st)) =
                 map (\<lambda>x. if em_id x = em_id r
                          then r\<lparr>em_timestamp := timestamp ev, em_duration := duration ev,
                                 em_datastr := data ev\<rparr>
                          else x) (events st)))"
proof (rule conjI [OF impI impI])
  define st0 where "st0 = st\<lparr>calls := calls st @ [Call_replace_last h ev]\<rparr>"
  have key0: "bucket_hash_keys st0 h = Some k" using assms(1) by (simp add: st0_def)
  assume "filter (\<lambda>r. em_bucket r = k) (events st) = []"
  then have "filter (\<lambda>r. em_bucket r = k) (events st0) = []" by (simp add: st0_def)
  from get_last_empty [OF key0 this]
  show "fst (Bucket_replace_last h ev st) = Inl EventModel_DoesNotExist \<and>
            events (snd (Bucket_replace_last h ev st)) = events st"
    by (simp add: Bucket_replace_last_def replace_last_def st0_def)
next
  define st0 where "st0 = st\<lparr>calls := calls st @ [Call_replace_last h ev]\<rparr>"
  have key0: "bucket_hash_keys st0 h = Some k" using assms(1) by (simp add: st0_def)
  have ev0: "events st0 = events st" by (simp add: st0_def)
  assume "filter (\<lambda>r. em_bucket r = k) (events st) \<noteq> []"
  then have "filter (\<lambda>r. em_bucket r = k) (events st0) \<noteq> []" by (simp add: ev0)
  from get_last_nonempty [OF key0 this]
  obtain r where r: "r \<in> set (events st)" "em_bucket r = k"
    and mx: "\<forall>r' \<in> set (events st). em_bucket r' = k \<longrightarrow> em_timestamp r' \<le> em_timestamp r"
    and gl: "get_last h st0 = (Inr r, st0\<lparr>executed := executed st0 @ [SELECT_EventModel]\<rparr>)"
    unfolding ev0 by blast
  from r(1) assms(2) obtain pk where pk: "em_id r = Some pk" by auto
  have "fst (Bucket_replace_last h ev st) = Inr (ev\<lparr>event_id := em_id r\<rparr>) \<and>
        events (snd (Bucket_replace_last h ev st)) =
                 map (\<lambda>x. if em_id x = em_id r
                          then r\<lparr>em_timestamp := timestamp ev, em_duration := duration ev,
                                 em_datastr := data ev\<rparr>
                          else x) (events st)"
    by (simp add: Bucket_replace_last_def replace_last_def st0_def [symmetric] gl save_def pk ev0)
  with r mx show "\<exists>r \<in> set (events st). em_bucket r = k \<and>
               (\<forall>r' \<in> set (events st). em_bucket r' = k \<longrightarrow> em_timestamp r' \<le> em_timestamp r) \<and>
               fst (Bucket_replace_last h ev st) = Inr (ev\<lparr>event_id := em_id r\<rparr>) \<and>
               events (snd (Bucket_replace_last h ev st)) =
                 map (\<lambda>x. if em_id x = em_id r
                          then r\<lparr>em_timestamp := timestamp ev, em_duration := duration ev,
                                 em_datastr := data ev\<rparr>
                          else x) (events st)"
    by blast
qed

theorem replace_last_overwrites_latest_witness:
  "bucket_hash_keys empty_bucket_store ''h'' = Some 1
   \<and> filter (\<lambda>r. em_bucket r = 1) (events empty_bucket_store) = []
   \<and> fst (Bucket_replace_last ''h'' new_event empty_bucket_store) = Inl EventModel_DoesNotExist
   \<and> events (snd (Bucket_replace_last ''h'' new_event empty_bucket_store)) =
       events empty_bucket_store
   \<and> bucket_hash_keys two_event_store ''h'' = Some 1
   \<and> filter (\<lambda>r. em_bucket r = 1) (events two_event_store) \<noteq> []
   \<and> fst (Bucket_replace_last ''h'' new_event two_event_store) =
       Inr (new_event\<lparr>event_id := Some 2\<rparr>)"
proof -
  have a: "bucket_hash_keys empty_bucket_store ''h'' = Some 1"
    by (simp add: empty_bucket_store_def)
  have b: "\<forall>r \<in> set (events empty_bucket_store). em_id r \<noteq> None"
    by (simp add: empty_bucket_store_def)
  have c: "filter (\<lambda>r. em_bucket r = 1) (events empty_bucket_store) = []"
    by (simp add: empty_bucket_store_def)
  from replace_last_overwrites_latest [OF a b, of new_event] c
  have empty: "fst (Bucket_replace_last ''h'' new_event empty_bucket_store) =
        Inl EventModel_DoesNotExist \<and>
      events (snd (Bucket_replace_last ''h'' new_event empty_bucket_store)) =
        events empty_bucket_store"
    by blast
  have a2: "bucket_hash_keys two_event_store ''h'' = Some 1"
    by (simp add: example_defs)
  have b2: "\<forall>r \<in> set (events two_event_store). em_id r \<noteq> None"
    by (simp add: two_event_store_def first_row_def second_row_def)
  have c2: "filter (\<lambda>r. em_bucket r = 1) (events two_event_store) \<noteq> []"
    by (simp add: two_event_store_def first_row_def)
  from replace_last_overwrites_latest [OF a2 b2, of new_event] c2
  obtain r where r: "r \<in> set (events two_event_store)"
    and mx: "\<forall>r' \<in> set (events two_event_store). em_bucket r' = 1 \<longrightarrow>
               em_timestamp r' \<le> em_timestamp r"
    and res: "fst (Bucket_replace_last ''h'' new_event two_event_store) =
               Inr (new_event\<lparr>event_id := em_id r\<rparr>)"
    by blast
  from r have "r = first_row \<or> r = second_row" by (simp add: two_event_store_def)
  moreover from mx have "em_timestamp second_row \<le> em_timestamp r"
    by (simp add: two_event_store_def second_row_def)
  ultimately have "em_id r = Some 2"
    by (auto simp: first_row_def second_row_def)
  with res have full: "fst (Bucket_replace_last ''h'' new_event two_event_store) =
       Inr (new_event\<lparr>event_id := Some 2\<rparr>)"
    by simp
  from a c empty a2 c2 full show ?thesis by blast
qed

section \<open>Bulk insertion\<close>

lemma concat_chunks_take:
  "concat (map (\<lambda>j. take n (drop (j * n) ls)) [0 ..< m]) = take (m * n) ls"
proof (induction m)
  case 0
  then show ?case by simp
next
  case (Suc m)
  have "take (m * n) ls @ take n (drop (m * n) ls) = take (m * n + n) ls"
    by (simp add: take_add)
  with Suc show ?case by (simp add: add.commute)
qed

lemma ceil_div_covers:
  assumes "0 < (n::nat)"
  shows "len \<le> (len + n - 1) div n * n"
proof -
  have "(len + n - 1) div n * n + (len + n - 1) mod n = len + n - 1" by simp
  moreover have "(len + n - 1) mod n < n" using assms by simp
  ultimately show ?thesis using assms by linarith
qed

lemma chunks_concat:
  assumes "chunks ls n = Inr cs"
  shows "concat cs = ls"
proof -
  from assms have n: "0 < n"
    and cs: "cs = map (\<lambda>j. take n (drop (j * n) ls)) [0 ..< (length ls + n - 1) div n]"
    by (auto simp: chunks_def split: if_splits)
  from ceil_div_covers [OF n, of "length ls"] show ?thesis
    by (simp add: cs concat_chunks_take)
qed

lemma chunks_sizes:
  assumes "chunks ls n = Inr cs" and "c \<in> set cs"
  shows "c \<noteq> [] \<and> length c \<le> n"
proof -
  from assms(1) have n: "0 < n"
    and cs: "cs = map (\<lambda>j. take n (drop (j * n) ls)) [0 ..< (length ls + n - 1) div n]"
    by (auto simp: chunks_def split: if_splits)
  from assms(2) cs obtain j where j: "j < (length ls + n - 1) div n"
    and c: "c = take n (drop (j * n) ls)" by auto
  from j have "Suc j * n \<le> (length ls + n - 1) div n * n" 
    using Suc_leI mult_le_mono1 by blast
  also have "\<dots> \<le> length ls + n - 1" by simp
  finally have "j * n < length ls" using n by simp
  with n show ?thesis by (simp add: c)
qed

lemma foldl_execute_statements:
  "executed (foldl (\<lambda>s c. insert_many_execute c s) st cs) =
     executed st @ map (\<lambda>c. INSERT_MANY_EventModel (length c)) cs"
proof (induction cs arbitrary: st)
  case Nil
  then show ?case by simp
next
  case (Cons c cs)
  from Cons.IH [of "insert_many_execute c st"] show ?case
    by (simp add: insert_many_execute_def)
qed

text \<open>
  The events of a bulk insert that have no id are written by one statement per chunk;
  the chunks are non-empty, hold at most 100 rows each and together are the rows in
  order.
\<close>

lemma insert_many_fresh_in_chunks:
  assumes "bucket_hash_keys st h = Some k" and "\<forall>e \<in> set evs. event_id e = None"
  shows "\<exists>cs. chunks (map (\<lambda>event. \<lparr>em_id = None, em_bucket = k,
                              em_timestamp = timestamp event, em_duration = duration event,
                              em_datastr = data event\<rparr>) evs) 100 = Inr cs
      \<and> concat cs = map (\<lambda>event. \<lparr>em_id = None, em_bucket = k,
                              em_timestamp = timestamp event, em_duration = duration event,
                              em_datastr = data event\<rparr>) evs
      \<and> (\<forall>c \<in> set cs. c \<noteq> [] \<and> length c \<le> 100)
      \<and> executed (snd (insert_many h evs st)) =
          executed st @ map (\<lambda>c. INSERT_MANY_EventModel (length c)) cs"
proof -
  define dl where "dl = map (\<lambda>event. \<lparr>em_id = None, em_bucket = k,
                              em_timestamp = timestamp event, em_duration = duration event,
                              em_datastr = data event\<rparr>) evs"
  from assms(2) have none: "filter (\<lambda>e. event_id e \<noteq> None) evs = []"
    and all: "filter (\<lambda>e. event_id e = None) evs = evs"
    by (simp_all add: filter_empty_conv filter_id_conv)
  obtain cs where cs: "chunks dl 100 = Inr cs" by (simp add: chunks_def)
  have "insert_many h evs st = (Inr (), foldl (\<lambda>s c. insert_many_execute c s) st cs)"
    unfolding insert_many_def Let_def none all
    using assms(1) cs by (simp add: dl_def)
  then have "executed (snd (insert_many h evs st)) =
      executed st @ map (\<lambda>c. INSERT_MANY_EventModel (length c)) cs"
    by (simp add: foldl_execute_statements)
  moreover have "\<forall>c \<in> set cs. c \<noteq> [] \<and> length c \<le> 100"
    using chunks_sizes [OF cs] by blast
  moreover have "concat cs = dl" using cs by (rule chunks_concat)
  ultimately show ?thesis
    using cs unfolding dl_def by blast
qed

text \<open>
  Claim C6, at the failing input. An event with the pre-assigned id 5 is bulk-inserted
  into a bucket that holds no event. \<open>insert_many\<close> hands it to \<open>insert_one\<close>, whose
  \<open>save()\<close> of an instance with a primary key is an UPDATE of the row with that id; no
  row has it, so the insert reports success and nothing is stored: the event is not
  inserted and cannot be fetched, under its id or otherwise.
\<close>

theorem insert_many_drops_event_with_unknown_id:
  "event_id stale_event = Some 5
   \<and> events empty_bucket_store = []
   \<and> fst (Bucket_insert ''h'' 0 (Many [stale_event]) empty_bucket_store) = Inr None
   \<and> events (snd (Bucket_insert ''h'' 0 (Many [stale_event]) empty_bucket_store)) = []
   \<and> executed (snd (Bucket_insert ''h'' 0 (Many [stale_event]) empty_bucket_store)) =
       [UPDATE_EventModel]
   \<and> fst (get_event ''h'' 5 (snd (Bucket_insert ''h'' 0 (Many [stale_event]) empty_bucket_store))) =
       Inr None"
  by (simp add: Bucket_insert_def insert_many_def insert_one_def save_def from_event_def
      chunks_def get_event_def datetime_add_def datetime_min_def datetime_max_def
      example_defs Let_def)

section \<open>Insertion of an event that reaches into the future\<close>

text \<open>
  Claim C8, at the failing input. The clock reads the epoch; an event of one second at
  10:00:10 that carries the id 5 is inserted, alone, into a bucket that holds no event.
  Its end lies after \<open>now\<close>, the warning is logged, \<open>insert\<close> returns the event and
  raises nothing. But \<open>insert_one\<close> saves an instance that has a primary key, which is
  an UPDATE of the row with that id, and there is none: afterwards the table is still
  empty, \<open>get_event\<close> finds nothing under the id and \<open>Bucket.get\<close> of the whole bucket
  returns the empty list. The event is neither inserted nor retrievable.
\<close>

theorem insert_future_event_with_unknown_id_not_stored:
  "event_id stale_event = Some 5
   \<and> datetime_add (timestamp stale_event) (duration stale_event) = Inr 36011000000
   \<and> (0::int) < 36011000000
   \<and> events empty_bucket_store = []
   \<and> fst (Bucket_insert ''h'' 0 (One stale_event) empty_bucket_store) = Inr (Some stale_event)
   \<and> warnings (snd (Bucket_insert ''h'' 0 (One stale_event) empty_bucket_store)) = [stale_event]
   \<and> calls (snd (Bucket_insert ''h'' 0 (One stale_event) empty_bucket_store)) =
       [Call_insert_one ''h'' stale_event]
   \<and> executed (snd (Bucket_insert ''h'' 0 (One stale_event) empty_bucket_store)) =
       [UPDATE_EventModel]
   \<and> events (snd (Bucket_insert ''h'' 0 (One stale_event) empty_bucket_store)) = []
   \<and> fst (get_event ''h'' 5 (snd (Bucket_insert ''h'' 0 (One stale_event) empty_bucket_store))) =
       Inr None
   \<and> fst (Bucket_get ''h'' (-1) None None
            (snd (Bucket_insert ''h'' 0 (One stale_event) empty_bucket_store))) = Inr []"
proof -
  have n: "get_endtime None = Inr None" by (simp add: get_endtime_def)
  show ?thesis
    by (simp add: Bucket_insert_def insert_one_def save_def from_event_def get_event_def
        Bucket_get_def get_starttime_def n get_events_def where_range_def select_events_def
        limit_rows_def order_by_timestamp_desc_def datetime_add_def datetime_min_def
        datetime_max_def example_defs Let_def)
qed


end
